theory Spec2Isabelle
  imports Main "HOL-Library.Char_ord" "HOL-Library.List_Lexorder"
begin

section \<open>JavaScript strings and objects\<close>

text \<open>
  A JavaScript string is modelled as a \<^typ>\<open>string\<close>: a list of code units, each below 256.
  What a regular expression or \<open>JSON.parse\<close> recognises in the text of a file is an input
  of the model (a record of the match results, the capture groups as the source names
  them); what the source computes from the match results is modelled here.
\<close>

definition truthy :: "string \<Rightarrow> bool" where
  \<comment> \<open>A string in a condition: the empty string is falsy.\<close>
  "truthy s = (s \<noteq> [])"

definition sq :: string where
  \<comment> \<open>The single quote, which a string literal of this theory cannot hold.\<close>
  "sq = [CHR 0x27]"

definition js_whitespace :: "char \<Rightarrow> bool" where
  \<comment> \<open>White space and line terminators below 256: TAB, LF, VT, FF, CR, SP, NBSP.\<close>
  "js_whitespace c = ((of_char c :: nat) \<in> set [9, 10, 11, 12, 13, 32, 160])"

definition trim :: "string \<Rightarrow> string" where
  "trim s = rev (dropWhile js_whitespace (rev (dropWhile js_whitespace s)))"

fun startsWith :: "string \<Rightarrow> string \<Rightarrow> bool" where
  "startsWith s [] = True"
| "startsWith [] (p # ps) = False"
| "startsWith (c # cs) (p # ps) = (c = p \<and> startsWith cs ps)"

definition endsWith :: "string \<Rightarrow> string \<Rightarrow> bool" where
  "endsWith s p = startsWith (rev s) (rev p)"

fun str_includes :: "string \<Rightarrow> string \<Rightarrow> bool" where
  "str_includes [] p = (p = [])"
| "str_includes (c # cs) p = (startsWith (c # cs) p \<or> str_includes cs p)"

fun replace_first :: "string \<Rightarrow> string \<Rightarrow> string \<Rightarrow> string" where
  \<comment> \<open>\<open>s.replace(pat, rep)\<close> with a string pattern: the first occurrence only.\<close>
  "replace_first pat rep [] = (if pat = [] then rep else [])"
| "replace_first pat rep (c # cs) =
     (if startsWith (c # cs) pat then rep @ drop (length pat) (c # cs)
      else c # replace_first pat rep cs)"

definition is_upper_AZ :: "char \<Rightarrow> bool" where
  \<comment> \<open>The character class \<open>[A-Z]\<close>.\<close>
  "is_upper_AZ c = (65 \<le> (of_char c :: nat) \<and> (of_char c :: nat) \<le> 90)"

definition lower_char :: "char \<Rightarrow> char" where
  \<comment> \<open>\<open>toLowerCase\<close> on one code unit below 256: A-Z, and the Latin-1 capitals
      U+00C0..U+00DE without the multiplication sign U+00D7, move up by 32.\<close>
  "lower_char c =
     (let n = (of_char c :: nat)
      in if (65 \<le> n \<and> n \<le> 90) \<or> (192 \<le> n \<and> n \<le> 222 \<and> n \<noteq> 215)
         then char_of (n + 32) else c)"

definition toLowerCase :: "string \<Rightarrow> string" where
  "toLowerCase s = map lower_char s"

definition substring1 :: "string \<Rightarrow> string" where
  \<comment> \<open>\<open>s.substring(1)\<close>: everything after the first code unit; empty for the empty string.\<close>
  "substring1 s = drop 1 s"

definition object_prototype_members :: "string list" where
  \<comment> \<open>The property names every object literal inherits from \<open>Object.prototype\<close>; a lookup
      \<open>table[key]\<close> with such a key yields the inherited member (a function or an
      object, truthy), not \<open>undefined\<close>.\<close>
  "object_prototype_members =
     [''constructor'', ''hasOwnProperty'', ''isPrototypeOf'', ''propertyIsEnumerable'',
      ''toLocaleString'', ''toString'', ''valueOf'', ''__proto__'',
      ''__defineGetter__'', ''__defineSetter__'', ''__lookupGetter__'', ''__lookupSetter__'']"

fun digit_value :: "char \<Rightarrow> nat" where
  "digit_value c = (of_char c :: nat) - 48"

definition is_digit :: "char \<Rightarrow> bool" where
  "is_digit c = (48 \<le> (of_char c :: nat) \<and> (of_char c :: nat) \<le> 57)"

definition decimal_value :: "string \<Rightarrow> nat" where
  "decimal_value s = foldl (\<lambda>n c. 10 * n + digit_value c) 0 s"

definition is_array_index :: "string \<Rightarrow> bool" where
  \<comment> \<open>A canonical numeric string below \<open>2^32 - 1\<close>: such keys of an object come first,
      in ascending order, when its properties are enumerated.\<close>
  "is_array_index k =
     (k \<noteq> [] \<and> list_all is_digit k \<and> (k = ''0'' \<or> hd k \<noteq> CHR ''0'')
      \<and> decimal_value k < 4294967295)"

fun object_set :: "string \<Rightarrow> 'v \<Rightarrow> (string \<times> 'v) list \<Rightarrow> (string \<times> 'v) list" where
  \<comment> \<open>\<open>obj[k] = v\<close> on a plain object, its own properties in creation order.\<close>
  "object_set k v [] = [(k, v)]"
| "object_set k v ((k', v') # kvs) =
     (if k' = k then (k, v) # kvs else (k', v') # object_set k v kvs)"

definition object_entries :: "(string \<times> 'v) list \<Rightarrow> (string \<times> 'v) list" where
  \<comment> \<open>\<open>Object.entries(obj)\<close>: array indices ascending, then the other keys in creation order.\<close>
  "object_entries kvs =
     sort_key (\<lambda>kv. decimal_value (fst kv)) (filter (\<lambda>kv. is_array_index (fst kv)) kvs)
     @ filter (\<lambda>kv. \<not> is_array_index (fst kv)) kvs"


section \<open>Schema synthesizer: models and migrations\<close>

text \<open>
  \<open>LaravelIntelligentCompletionProvider\<close>: the migration pass fills \<open>this.migrations\<close>
  (table name to column list), the model pass builds one \<open>ModelInfo\<close> per model class and
  merges the migration columns of its table into the field list. A migration column
  that the merge pushes into a model's list is the object of the migration list itself;
  no later step assigns to it, since the column names of a table are distinct, so lists
  of values stand for the lists of objects.
\<close>

datatype type_value =
    TypeName string
  | Inherited string
  \<comment> \<open>\<open>Inherited k\<close>: the member \<open>k\<close> of \<open>Object.prototype\<close>, which \<open>typeMapping[k] || 'string'\<close>
      returns for a key the table inherits.\<close>

record ModelField =
  f_name :: string
  f_type :: type_value
  f_nullable :: bool
  f_default :: "string option"
  f_comment :: "string option"

record RelationshipInfo =
  r_name :: string
  r_type :: string
  r_relatedModel :: string

record ModelInfo =
  m_name :: string
  m_table :: string
  m_fields :: "ModelField list"
  m_relationships :: "RelationshipInfo list"
  m_filePath :: string

definition new_field :: "string \<Rightarrow> type_value \<Rightarrow> bool \<Rightarrow> ModelField" where
  \<comment> \<open>The object literal \<open>{ name, type, nullable }\<close>.\<close>
  "new_field n t nl =
     \<lparr>f_name = n, f_type = t, f_nullable = nl, f_default = None, f_comment = None\<rparr>"

definition find_field :: "string \<Rightarrow> ModelField list \<Rightarrow> ModelField option" where
  \<comment> \<open>\<open>fields.find(f => f.name === n)\<close>\<close>
  "find_field n flds = find (\<lambda>f. f_name f = n) flds"

fun update_found :: "string \<Rightarrow> (ModelField \<Rightarrow> ModelField) \<Rightarrow> ModelField list \<Rightarrow> ModelField list" where
  \<comment> \<open>Assignments to the object that \<open>find\<close> returned: the first field of that name.\<close>
  "update_found n g [] = []"
| "update_found n g (f # fs) = (if f_name f = n then g f # fs else f # update_found n g fs)"

subsection \<open>Migration pass\<close>

definition migrationTypeMapping :: "(string \<times> string) list" where
  "migrationTypeMapping =
     [(''id'', ''integer''), (''bigIncrements'', ''integer''), (''increments'', ''integer''),
      (''integer'', ''integer''), (''bigInteger'', ''integer''), (''smallInteger'', ''integer''),
      (''tinyInteger'', ''integer''), (''unsignedInteger'', ''integer''),
      (''unsignedBigInteger'', ''integer''), (''string'', ''string''), (''text'', ''string''),
      (''mediumText'', ''string''), (''longText'', ''string''), (''char'', ''string''),
      (''boolean'', ''boolean''), (''date'', ''date''), (''dateTime'', ''datetime''),
      (''time'', ''time''), (''timestamp'', ''timestamp''), (''timestamps'', ''timestamp''),
      (''decimal'', ''decimal''), (''double'', ''float''), (''float'', ''float''),
      (''json'', ''json''), (''jsonb'', ''json''), (''binary'', ''binary''),
      (''enum'', ''string''), (''uuid'', ''string'')]"

definition table_lookup :: "(string \<times> string) list \<Rightarrow> string \<Rightarrow> type_value" where
  \<comment> \<open>\<open>typeMapping[key] || 'string'\<close>\<close>
  "table_lookup typeMapping key =
     (case map_of typeMapping key of
        Some t \<Rightarrow> TypeName t
      | None \<Rightarrow> if key \<in> set object_prototype_members then Inherited key
                else TypeName ''string'')"

definition migrationTypeToType :: "string \<Rightarrow> type_value" where
  "migrationTypeToType migrationColumnType = table_lookup migrationTypeMapping migrationColumnType"

record column_match =
  \<comment> \<open>One match of \<open>$table->(\w+)\s*\(\s*['"`]([^'"`]+)['"`](?:\s*,\s*(\d+))?\s*\)([^;]*);\<close>
      (the unused length group left out), with what \<open>extractDefault\<close> finds in group 4.\<close>
  cm_columnType :: string
  cm_columnName :: string
  cm_modifiers :: string
  cm_default :: "string option"

record call_match =
  \<comment> \<open>One match of \<open>$table->(\w+)\s*\(\s*\)([^;]*);\<close>: the method and the text up to the
      semicolon.\<close>
  cl_method :: string
  cl_chain :: string

record migration_content =
  mc_createMatch :: "string option"
  mc_tableMatch :: "string option"
  mc_columns :: "column_match list"
  mc_calls :: "call_match list"

type_synonym migration_file = "string \<times> migration_content option"
  \<comment> \<open>File name, and what is recognised in its text; \<open>None\<close> when reading the file throws.\<close>

fun set_column :: "ModelField \<Rightarrow> ModelField list \<Rightarrow> ModelField list" where
  \<comment> \<open>\<open>findIndex\<close> by name, then \<open>fields[existingIndex] = field\<close> or \<open>fields.push(field)\<close>.\<close>
  "set_column field [] = [field]"
| "set_column field (f # fs) =
     (if f_name f = f_name field then field # fs else f # set_column field fs)"

definition push_if_absent :: "ModelField \<Rightarrow> ModelField list \<Rightarrow> ModelField list" where
  "push_if_absent field flds =
     (if find_field (f_name field) flds = None then flds @ [field] else flds)"

definition handleSpecialMigrationMethods :: "string \<Rightarrow> ModelField list \<Rightarrow> ModelField list" where
  "handleSpecialMigrationMethods method flds =
     (if method = ''timestamps'' then
        push_if_absent (new_field ''updated_at'' (TypeName ''timestamp'') True)
          (push_if_absent (new_field ''created_at'' (TypeName ''timestamp'') True) flds)
      else if method = ''softDeletes'' then
        push_if_absent (new_field ''deleted_at'' (TypeName ''timestamp'') True) flds
      else if method = ''rememberToken'' then
        push_if_absent (new_field ''remember_token'' (TypeName ''string'') True) flds
      else flds)"

definition column_field ::
  "string \<Rightarrow> string \<Rightarrow> string option \<Rightarrow> string option \<Rightarrow> ModelField" where
  \<comment> \<open>The object literal of a regular column; \<open>modifiers?.includes('nullable()') || false\<close>,
      and \<open>dflt\<close> for \<open>extractDefault(modifiers)\<close>.\<close>
  "column_field columnType columnName modifiers dflt =
     \<lparr>f_name = columnName, f_type = migrationTypeToType columnType,
      f_nullable = (case modifiers of None \<Rightarrow> False | Some m \<Rightarrow> str_includes m ''nullable()''),
      f_default = dflt, f_comment = None\<rparr>"

definition column_step ::
  "string \<Rightarrow> string \<Rightarrow> string option \<Rightarrow> string option \<Rightarrow> ModelField list \<Rightarrow> ModelField list" where
  \<comment> \<open>The body of the \<open>while\<close> loop for \<open>[, columnType, columnName, length, modifiers] = match\<close>.\<close>
  "column_step columnType columnName modifiers dflt flds =
     (if truthy columnName then
        set_column (column_field columnType columnName modifiers dflt) flds
      else handleSpecialMigrationMethods columnType flds)"

definition first_pattern_step :: "column_match \<Rightarrow> ModelField list \<Rightarrow> ModelField list" where
  "first_pattern_step m =
     column_step (cm_columnType m) (cm_columnName m) (Some (cm_modifiers m)) (cm_default m)"

definition second_pattern_step :: "call_match \<Rightarrow> ModelField list \<Rightarrow> ModelField list" where
  \<comment> \<open>The second pattern has two groups only: the destructuring binds \<open>columnName\<close> to the
      text after the parentheses, and \<open>length\<close> and \<open>modifiers\<close> to \<open>undefined\<close>.\<close>
  "second_pattern_step m = column_step (cl_method m) (cl_chain m) None None"

definition migration_tableName :: "migration_content \<Rightarrow> string option" where
  \<comment> \<open>\<open>createMatch?.[1] || tableMatch?.[1]\<close>\<close>
  "migration_tableName c =
     (case mc_createMatch c of
        Some t \<Rightarrow> if truthy t then Some t else mc_tableMatch c
      | None \<Rightarrow> mc_tableMatch c)"

definition parseMigrationFile ::
  "migration_file \<Rightarrow> (string \<rightharpoonup> ModelField list) \<Rightarrow> (string \<rightharpoonup> ModelField list)" where
  "parseMigrationFile file migrations =
     (case snd file of
        None \<Rightarrow> migrations
      | Some c \<Rightarrow>
          (case migration_tableName c of
             None \<Rightarrow> migrations
           | Some tableName \<Rightarrow>
               if \<not> truthy tableName then migrations
               else
                 let flds = (case migrations tableName of None \<Rightarrow> [] | Some fs \<Rightarrow> fs)
                 in migrations(tableName \<mapsto>
                      fold second_pattern_step (mc_calls c)
                        (fold first_pattern_step (mc_columns c) flds))))"

definition migrationFiles :: "migration_file list \<Rightarrow> migration_file list" where
  \<comment> \<open>\<open>readdirSync(migrationsPath).filter(file => file.endsWith('.php')).sort()\<close>\<close>
  "migrationFiles dir = sort_key fst (filter (\<lambda>file. endsWith (fst file) ''.php'') dir)"

subsection \<open>Model pass\<close>

definition castTypeMapping :: "(string \<times> string) list" where
  "castTypeMapping =
     [(''integer'', ''integer''), (''int'', ''integer''), (''real'', ''float''),
      (''float'', ''float''), (''double'', ''float''), (''decimal'', ''decimal''),
      (''string'', ''string''), (''boolean'', ''boolean''), (''bool'', ''boolean''),
      (''object'', ''object''), (''array'', ''array''), (''collection'', ''collection''),
      (''date'', ''date''), (''datetime'', ''datetime''), (''timestamp'', ''timestamp'')]"

definition castToType :: "string \<Rightarrow> type_value" where
  "castToType cast = table_lookup castTypeMapping cast"

definition snake_underscores :: "string \<Rightarrow> string" where
  \<comment> \<open>\<open>.replace(/([A-Z])/g, '_$1')\<close>\<close>
  "snake_underscores s = concat (map (\<lambda>c. if is_upper_AZ c then [CHR ''_'', c] else [c]) s)"

definition modelNameToTableName :: "string \<Rightarrow> string" where
  "modelNameToTableName modelName =
     substring1 (toLowerCase (snake_underscores modelName)) @ ''s''"

definition extractTableName :: "string option \<Rightarrow> string \<Rightarrow> string" where
  \<comment> \<open>\<open>tableMatch\<close> is group 1 of the \<open>protected $table = '...'\<close> match, if any.\<close>
  "extractTableName tableMatch modelName =
     (case tableMatch of
        Some t \<Rightarrow> t
      | None \<Rightarrow> substring1 (toLowerCase (snake_underscores modelName)) @ ''s'')"

definition cast_assign :: "string \<times> string \<Rightarrow> (string \<times> string) list \<Rightarrow> (string \<times> string) list" where
  \<comment> \<open>\<open>casts[match[1]] = match[2]\<close>; assigning \<open>__proto__\<close> a string leaves the object as
      it is.\<close>
  "cast_assign kv casts =
     (if fst kv = ''__proto__'' then casts else object_set (fst kv) (snd kv) casts)"

definition extractCasts :: "(string \<times> string) list \<Rightarrow> (string \<times> string) list" where
  \<comment> \<open>The \<open>while\<close> loop over the matches, in text order.\<close>
  "extractCasts matches = fold cast_assign matches []"

record model_content =
  mo_isModel :: bool
  mo_tableMatch :: "string option"
  mo_fillable :: "string list option"
  mo_hidden :: "string list option"
  mo_casts :: "(string \<times> string) list option"
  mo_relationships :: "RelationshipInfo list"
  \<comment> \<open>\<open>mo_isModel\<close>: the \<open>content.includes\<close> test for a model class; \<open>mo_fillable\<close>, \<open>mo_hidden\<close>:
      \<open>extractArrayValues\<close> of the property's array, when the property is matched;
      \<open>mo_casts\<close>: the key and value of each match of \<open>extractCasts\<close>' pattern in the
      \<open>$casts\<close> array; \<open>mo_relationships\<close>: \<open>extractRelationships(content)\<close>.\<close>

definition fillable_step :: "string \<Rightarrow> ModelField list \<Rightarrow> ModelField list" where
  "fillable_step field flds =
     (if truthy field \<and> truthy (trim field)
      then flds @ [new_field (trim field) (TypeName ''string'') False]
      else flds)"

definition hidden_step :: "string \<Rightarrow> ModelField list \<Rightarrow> ModelField list" where
  "hidden_step field flds =
     (if truthy field \<and> truthy (trim field) then
        (case find_field (trim field) flds of
           None \<Rightarrow> flds @ [new_field (trim field) (TypeName ''string'') False]
         | Some existingField \<Rightarrow> flds)
      else flds)"

definition cast_step :: "string \<times> string \<Rightarrow> ModelField list \<Rightarrow> ModelField list" where
  "cast_step entry flds =
     (let field = fst entry; cast = snd entry
      in if truthy field \<and> truthy cast then
           (case find_field field flds of
              Some existingField \<Rightarrow> update_found field (\<lambda>f. f\<lparr>f_type := castToType cast\<rparr>) flds
            | None \<Rightarrow> flds @ [new_field field (castToType cast) False])
         else flds)"

definition migration_step :: "ModelField \<Rightarrow> ModelField list \<Rightarrow> ModelField list" where
  "migration_step migrationField flds =
     (case find_field (f_name migrationField) flds of
        Some existingField \<Rightarrow>
          update_found (f_name migrationField)
            (\<lambda>f. f\<lparr>f_type := f_type migrationField, f_nullable := f_nullable migrationField,
                   f_default := f_default migrationField\<rparr>) flds
      | None \<Rightarrow> flds @ [migrationField])"

definition defaultFields :: "(string \<times> string) list" where
  "defaultFields = [(''id'', ''integer''), (''created_at'', ''datetime''), (''updated_at'', ''datetime'')]"

definition default_step :: "string \<times> string \<Rightarrow> ModelField list \<Rightarrow> ModelField list" where
  "default_step d flds =
     (case find_field (fst d) flds of
        None \<Rightarrow> flds @ [new_field (fst d) (TypeName (snd d)) False]
      | Some f \<Rightarrow> flds)"

definition fieldsAfterFillable :: "model_content \<Rightarrow> ModelField list" where
  \<comment> \<open>The field list after the block "Extract fillable fields".\<close>
  "fieldsAfterFillable c =
     (case mo_fillable c of
        None \<Rightarrow> []
      | Some fillableFields \<Rightarrow> fold fillable_step fillableFields [])"

definition fieldsAfterHidden :: "model_content \<Rightarrow> ModelField list" where
  \<comment> \<open>The field list after the block "Extract hidden fields".\<close>
  "fieldsAfterHidden c =
     (case mo_hidden c of
        None \<Rightarrow> fieldsAfterFillable c
      | Some hiddenFields \<Rightarrow> fold hidden_step hiddenFields (fieldsAfterFillable c))"

definition classFields :: "model_content \<Rightarrow> ModelField list" where
  \<comment> \<open>The field list after the block "Extract casts".\<close>
  "classFields c =
     (case mo_casts c of
        None \<Rightarrow> fieldsAfterHidden c
      | Some castMatches \<Rightarrow>
          fold cast_step (object_entries (extractCasts castMatches)) (fieldsAfterHidden c))"

definition mergedFields :: "(string \<rightharpoonup> ModelField list) \<Rightarrow> string \<Rightarrow> model_content \<Rightarrow> ModelField list" where
  \<comment> \<open>The field list after the block "Merge with migration data if available".\<close>
  "mergedFields migrations table c =
     (case migrations table of
        None \<Rightarrow> classFields c
      | Some migrationFields \<Rightarrow> fold migration_step migrationFields (classFields c))"

definition modelFields :: "(string \<rightharpoonup> ModelField list) \<Rightarrow> string \<Rightarrow> model_content \<Rightarrow> ModelField list" where
  \<comment> \<open>The field list of the model that \<open>parseModelFile\<close> stores.\<close>
  "modelFields migrations table c = fold default_step defaultFields (mergedFields migrations table c)"

record schema_state =
  models :: "string \<rightharpoonup> ModelInfo"
  migrations :: "string \<rightharpoonup> ModelField list"

definition analyzeMigrations :: "migration_file list option \<Rightarrow> schema_state \<Rightarrow> schema_state" where
  \<comment> \<open>\<open>dir\<close> is the listing of \<open>database/migrations\<close>, \<open>None\<close> when the directory is absent.\<close>
  "analyzeMigrations dir st =
     (case dir of
        None \<Rightarrow> st\<lparr>migrations := Map.empty\<rparr>
      | Some files \<Rightarrow> st\<lparr>migrations := fold parseMigrationFile (migrationFiles files) Map.empty\<rparr>)"

definition parseModelFile ::
  "string \<Rightarrow> string \<Rightarrow> model_content option \<Rightarrow> schema_state \<Rightarrow> schema_state" where
  \<comment> \<open>\<open>modelName\<close> is \<open>path.basename(filePath, '.php')\<close>; the content is \<open>None\<close> when reading
      the file throws (the error is caught and logged).\<close>
  "parseModelFile filePath modelName content st =
     (case content of
        None \<Rightarrow> st
      | Some c \<Rightarrow>
          if \<not> mo_isModel c then st
          else
            let table = extractTableName (mo_tableMatch c) modelName;
                model = \<lparr>m_name = modelName, m_table = table,
                         m_fields = modelFields (migrations st) table c,
                         m_relationships = mo_relationships c,
                         m_filePath = filePath\<rparr>
            in st\<lparr>models := (models st)(modelName \<mapsto> model)\<rparr>)"

definition table_name_spec :: "string \<Rightarrow> string" where
  \<comment> \<open>The derivation in the words of the specification: an underscore before each
      uppercase letter, lowercased, the leading underscore removed, \<open>s\<close> appended.\<close>
  "table_name_spec modelName =
     (let snake = toLowerCase (snake_underscores modelName)
      in (if startsWith snake ''_'' then drop 1 snake else snake) @ ''s'')"


definition declared_names :: "model_content \<Rightarrow> string list" where
  \<comment> \<open>The field names that the \<open>$fillable\<close> and \<open>$hidden\<close> properties give.\<close>
  "declared_names c =
     map trim (filter (\<lambda>x. truthy x \<and> truthy (trim x))
       ((case mo_fillable c of None \<Rightarrow> [] | Some xs \<Rightarrow> xs)
        @ (case mo_hidden c of None \<Rightarrow> [] | Some xs \<Rightarrow> xs)))"

definition cast_entry :: "model_content \<Rightarrow> string \<Rightarrow> string option" where
  \<comment> \<open>The cast that the \<open>$casts\<close> property gives a field: its last entry for that key.\<close>
  "cast_entry c n =
     (case mo_casts c of
        None \<Rightarrow> None
      | Some castMatches \<Rightarrow>
          (case map_of (rev (filter (\<lambda>kv. fst kv \<noteq> ''__proto__'') castMatches)) n of
             None \<Rightarrow> None
           | Some cast \<Rightarrow> if truthy n \<and> truthy cast then Some cast else None))"

definition migration_column :: "(string \<rightharpoonup> ModelField list) \<Rightarrow> string \<Rightarrow> string \<Rightarrow> ModelField option" where
  "migration_column migs table n =
     (case migs table of None \<Rightarrow> None | Some migrationFields \<Rightarrow> find_field n migrationFields)"

definition resolved_field ::
  "(string \<rightharpoonup> ModelField list) \<Rightarrow> string \<Rightarrow> model_content \<Rightarrow> string \<Rightarrow> ModelField option" where
  \<comment> \<open>The precedence in the words of the specification: a fillable or hidden entry starts
      as string, non-null; a casts entry refines the type; a migration column of the
      model's table overrides type, nullability and default; the implicit fields come
      last, for names nothing else defines.\<close>
  "resolved_field migs table c n =
     (let declared = (if n \<in> set (declared_names c)
                      then Some (new_field n (TypeName ''string'') False) else None);
          refined = (case cast_entry c n of
                       Some cast \<Rightarrow> Some (new_field n (castToType cast) False)
                     | None \<Rightarrow> declared);
          merged = (case migration_column migs table n of
                      Some m \<Rightarrow>
                        Some (case refined of
                                Some f \<Rightarrow> f\<lparr>f_type := f_type m, f_nullable := f_nullable m,
                                            f_default := f_default m\<rparr>
                              | None \<Rightarrow> m)
                    | None \<Rightarrow> refined)
      in case merged of
           Some f \<Rightarrow> Some f
         | None \<Rightarrow> (case map_of defaultFields n of
                      Some t \<Rightarrow> Some (new_field n (TypeName t) False)
                    | None \<Rightarrow> None))"

definition distinct_columns :: "(string \<rightharpoonup> ModelField list) \<Rightarrow> bool" where
  \<comment> \<open>No table lists a column name twice.\<close>
  "distinct_columns migs = (\<forall>t flds. migs t = Some flds \<longrightarrow> distinct (map f_name flds))"

definition file_table :: "migration_file \<Rightarrow> string option" where
  \<comment> \<open>The table whose column list a migration file changes, if any.\<close>
  "file_table file =
     (case snd file of
        None \<Rightarrow> None
      | Some c \<Rightarrow>
          (case migration_tableName c of
             None \<Rightarrow> None
           | Some t \<Rightarrow> if truthy t then Some t else None))"

definition file_definitions :: "migration_file \<Rightarrow> ModelField list" where
  \<comment> \<open>The regular column definitions of a migration file, in the order the loop meets
      them: the matches of the first pattern, then those of the second whose text after
      the parentheses is not empty.\<close>
  "file_definitions file =
     (case snd file of
        None \<Rightarrow> []
      | Some c \<Rightarrow>
          map (\<lambda>m. column_field (cm_columnType m) (cm_columnName m) (Some (cm_modifiers m)) (cm_default m))
            (filter (\<lambda>m. truthy (cm_columnName m)) (mc_columns c))
          @ map (\<lambda>m. column_field (cl_method m) (cl_chain m) None None)
              (filter (\<lambda>m. truthy (cl_chain m)) (mc_calls c)))"

definition defines_column :: "migration_file \<Rightarrow> string \<Rightarrow> string \<Rightarrow> bool" where
  \<comment> \<open>A readable \<open>.php\<close> migration of that table with a regular definition of the column.\<close>
  "defines_column file table column =
     (endsWith (fst file) ''.php'' \<and> file_table file = Some table
      \<and> list_ex (\<lambda>f. f_name f = column) (file_definitions file))"

subsection \<open>Auxiliary notions for the proofs about the migration pass\<close>

type_synonym column_call = "string \<times> string \<times> string option \<times> string option"

definition call_step :: "column_call \<Rightarrow> ModelField list \<Rightarrow> ModelField list" where
  "call_step x = (case x of (ct, cn, mo, df) \<Rightarrow> column_step ct cn mo df)"

definition call_defs :: "string \<Rightarrow> column_call list \<Rightarrow> ModelField list" where
  "call_defs col xs =
     filter (\<lambda>f. f_name f = col)
       (map (\<lambda>(ct, cn, mo, df). column_field ct cn mo df) (filter (\<lambda>(ct, cn, mo, df). truthy cn) xs))"

definition file_calls :: "migration_content \<Rightarrow> column_call list" where
  "file_calls c =
     map (\<lambda>m. (cm_columnType m, cm_columnName m, Some (cm_modifiers m), cm_default m)) (mc_columns c)
     @ map (\<lambda>m. (cl_method m, cl_chain m, None, None)) (mc_calls c)"

definition table_definitions :: "string \<Rightarrow> string \<Rightarrow> migration_file list \<Rightarrow> ModelField list" where
  "table_definitions t col files =
     filter (\<lambda>f. f_name f = col)
       (concat (map file_definitions (filter (\<lambda>file. file_table file = Some t) files)))"


section \<open>Route extractor\<close>

text \<open>
  \<open>EnhancedRouteInlayProvider\<close>: \<open>parseAllRoutes\<close> clears the three maps, parses every
  \<open>.php\<close> file of the \<open>routes\<close> directory line by line and then builds the index from
  controller actions to routes. A \<open>Map\<close> is an association list in insertion order.
\<close>

fun split_on :: "char \<Rightarrow> string \<Rightarrow> string list" where
  \<comment> \<open>\<open>s.split(sep)\<close> for a separator of one character.\<close>
  "split_on sep [] = [[]]"
| "split_on sep (c # cs) =
     (if c = sep then [] # split_on sep cs
      else (case split_on sep cs of p # ps \<Rightarrow> (c # p) # ps | [] \<Rightarrow> [[c]]))"

definition map_push :: "'k \<Rightarrow> 'v \<Rightarrow> ('k \<times> 'v list) list \<Rightarrow> ('k \<times> 'v list) list" where
  \<comment> \<open>\<open>if (!map.has(k)) map.set(k, []); map.get(k).push(v)\<close>\<close>
  "map_push k v m =
     (case map_of m k of
        None \<Rightarrow> m @ [(k, [v])]
      | Some xs \<Rightarrow> map (\<lambda>kv. if fst kv = k then (k, snd kv @ [v]) else kv) m)"

datatype http_verb = Get | Post | Put | Patch | Delete | Options | Head | Any
  \<comment> \<open>What the group \<open>(get|post|put|patch|delete|options|head|any)\<close> captures.\<close>

fun verb_upper :: "http_verb \<Rightarrow> string" where
  \<comment> \<open>\<open>method.toUpperCase()\<close>\<close>
  "verb_upper Get = ''GET''"
| "verb_upper Post = ''POST''"
| "verb_upper Put = ''PUT''"
| "verb_upper Patch = ''PATCH''"
| "verb_upper Delete = ''DELETE''"
| "verb_upper Options = ''OPTIONS''"
| "verb_upper Head = ''HEAD''"
| "verb_upper Any = ''ANY''"

datatype resource_type = Resource | ApiResource
  \<comment> \<open>What the group \<open>(resource|apiResource)\<close> captures.\<close>

fun resource_text :: "resource_type \<Rightarrow> string" where
  "resource_text Resource = ''resource''"
| "resource_text ApiResource = ''apiResource''"

record RouteInfo =
  rt_method :: "string list"
  rt_uri :: string
  rt_name :: "string option"
  rt_action :: "string option"
  rt_controller :: "string option"
  rt_controllerMethod :: "string option"
  rt_middleware :: "string list option"
  rt_filePath :: string
  rt_line :: nat
  rt_column :: int

record route_line =
  \<comment> \<open>What is recognised on one line of a route file: the two tests on the trimmed line,
      the capture groups of each pattern that matches, and \<open>line.indexOf('Route::')\<close>.\<close>
  ln_isGroup :: bool
  ln_isClosing :: bool
  ln_groupMiddleware :: "string option"
  ln_groupPrefix :: "string option"
  ln_controllerAt :: "(http_verb \<times> string \<times> string \<times> string) option"
  ln_controllerClass :: "(http_verb \<times> string \<times> string \<times> string) option"
  ln_resource :: "(resource_type \<times> string \<times> string) option"
  ln_closure :: "(http_verb \<times> string) option"
  ln_name :: "string option"
  ln_middleware :: "string option"
  ln_middlewareArray :: "string option"
  ln_column :: int

type_synonym route_map = "(string \<times> RouteInfo list) list"

definition middleware_names :: "string \<Rightarrow> string list" where
  \<comment> \<open>\<open>.split(',').map(m => m.trim().replace(/['"]/g, ''))\<close>\<close>
  "middleware_names s =
     map (\<lambda>m. filter (\<lambda>c. c \<noteq> CHR 0x27 \<and> c \<noteq> CHR 0x22) (trim m)) (split_on CHR '','' s)"

definition parseRouteGroup :: "route_line \<Rightarrow> string list \<Rightarrow> string \<Rightarrow> string list \<times> string" where
  \<comment> \<open>The result is the array \<open>currentMiddleware\<close> after the pushes, which the caller shares,
      and the value of the parameter \<open>currentPrefix\<close> when the function returns, which a
      caller cannot see: a string is passed by value.\<close>
  "parseRouteGroup line currentMiddleware currentPrefix =
     (let middleware = (case ln_groupMiddleware line of
                          None \<Rightarrow> currentMiddleware
                        | Some m \<Rightarrow> currentMiddleware @ middleware_names m);
          prefix = (case ln_groupPrefix line of None \<Rightarrow> currentPrefix | Some p \<Rightarrow> p)
      in (middleware, prefix))"

definition extractInlineMiddleware :: "route_line \<Rightarrow> string list" where
  "extractInlineMiddleware line =
     (case ln_middleware line of
        Some m \<Rightarrow> [m]
      | None \<Rightarrow> (case ln_middlewareArray line of Some a \<Rightarrow> middleware_names a | None \<Rightarrow> []))"

definition fullUri :: "string \<Rightarrow> string \<Rightarrow> string" where
  \<comment> \<open>\<open>groupPrefix ? `${groupPrefix}/${uri}`.replace('//', '/') : uri\<close>\<close>
  "fullUri groupPrefix uri =
     (if truthy groupPrefix then replace_first ''//'' ''/'' (groupPrefix @ ''/'' @ uri) else uri)"

definition shortController :: "string \<Rightarrow> string" where
  \<comment> \<open>\<open>controller.split('\\').pop() || controller\<close>\<close>
  "shortController controller =
     (let l = last (split_on CHR 0x5C controller) in if truthy l then l else controller)"

definition addRoute :: "RouteInfo \<Rightarrow> route_map \<Rightarrow> route_map" where
  "addRoute route routes = map_push (rt_filePath route) route routes"

definition controllerAtRoute ::
  "route_line \<Rightarrow> nat \<Rightarrow> string \<Rightarrow> string list \<Rightarrow> string \<Rightarrow> RouteInfo list" where
  \<comment> \<open>Standard routes with \<open>controller@method\<close>: the route the block adds, if the pattern matches.\<close>
  "controllerAtRoute line lineNumber filePath groupMiddleware groupPrefix =
     (case ln_controllerAt line of
        None \<Rightarrow> []
      | Some (method, uri, controller, controllerMethod) \<Rightarrow>
          [\<lparr>rt_method = [verb_upper method], rt_uri = fullUri groupPrefix uri, rt_name = None,
            rt_action = Some (controller @ ''@'' @ controllerMethod),
            rt_controller = Some controller, rt_controllerMethod = Some controllerMethod,
            rt_middleware = Some (groupMiddleware @ extractInlineMiddleware line),
            rt_filePath = filePath, rt_line = lineNumber, rt_column = ln_column line\<rparr>])"

definition controllerClassRoute ::
  "route_line \<Rightarrow> nat \<Rightarrow> string \<Rightarrow> string list \<Rightarrow> string \<Rightarrow> RouteInfo list" where
  \<comment> \<open>Routes with \<open>[Controller::class, 'method']\<close>.\<close>
  "controllerClassRoute line lineNumber filePath groupMiddleware groupPrefix =
     (case ln_controllerClass line of
        None \<Rightarrow> []
      | Some (method, uri, controller, controllerMethod) \<Rightarrow>
          [\<lparr>rt_method = [verb_upper method], rt_uri = fullUri groupPrefix uri, rt_name = None,
            rt_action = Some (controller @ ''@'' @ controllerMethod),
            rt_controller = Some (shortController controller),
            rt_controllerMethod = Some controllerMethod,
            rt_middleware = Some (groupMiddleware @ extractInlineMiddleware line),
            rt_filePath = filePath, rt_line = lineNumber, rt_column = ln_column line\<rparr>])"

definition resourceMethods :: "resource_type \<Rightarrow> string list" where
  "resourceMethods resourceType =
     (if resourceType = ApiResource then [''GET'', ''POST'', ''PUT'', ''PATCH'', ''DELETE'']
      else [''GET'', ''POST'', ''PUT'', ''PATCH'', ''DELETE''])"

definition resourceRoute ::
  "route_line \<Rightarrow> nat \<Rightarrow> string \<Rightarrow> string list \<Rightarrow> string \<Rightarrow> RouteInfo list" where
  \<comment> \<open>Resource routes.\<close>
  "resourceRoute line lineNumber filePath groupMiddleware groupPrefix =
     (case ln_resource line of
        None \<Rightarrow> []
      | Some (resourceType, uri, controller) \<Rightarrow>
          [\<lparr>rt_method = resourceMethods resourceType,
            rt_uri = fullUri groupPrefix uri @ ''/{id?}'', rt_name = None,
            rt_action = Some (controller @ '' ('' @ resource_text resourceType @ '')''),
            rt_controller = Some (shortController controller),
            rt_controllerMethod = Some ''resource'',
            rt_middleware = Some (groupMiddleware @ extractInlineMiddleware line),
            rt_filePath = filePath, rt_line = lineNumber, rt_column = ln_column line\<rparr>])"

definition closureRoute ::
  "route_line \<Rightarrow> nat \<Rightarrow> string \<Rightarrow> string list \<Rightarrow> string \<Rightarrow> RouteInfo list" where
  \<comment> \<open>Closure routes.\<close>
  "closureRoute line lineNumber filePath groupMiddleware groupPrefix =
     (case ln_closure line of
        None \<Rightarrow> []
      | Some (method, uri) \<Rightarrow>
          [\<lparr>rt_method = [verb_upper method], rt_uri = fullUri groupPrefix uri, rt_name = None,
            rt_action = Some ''Closure'', rt_controller = None, rt_controllerMethod = None,
            rt_middleware = Some (groupMiddleware @ extractInlineMiddleware line),
            rt_filePath = filePath, rt_line = lineNumber, rt_column = ln_column line\<rparr>])"

definition lineRoutes ::
  "route_line \<Rightarrow> nat \<Rightarrow> string \<Rightarrow> string list \<Rightarrow> string \<Rightarrow> RouteInfo list" where
  \<comment> \<open>The routes of one line, in the order of the four blocks of \<open>parseRouteLine\<close>.\<close>
  "lineRoutes line lineNumber filePath groupMiddleware groupPrefix =
     controllerAtRoute line lineNumber filePath groupMiddleware groupPrefix
     @ controllerClassRoute line lineNumber filePath groupMiddleware groupPrefix
     @ resourceRoute line lineNumber filePath groupMiddleware groupPrefix
     @ closureRoute line lineNumber filePath groupMiddleware groupPrefix"

definition nameLastRoute :: "string option \<Rightarrow> nat \<Rightarrow> string \<Rightarrow> route_map \<Rightarrow> route_map" where
  \<comment> \<open>Named routes: \<open>lastRoute.name = nameMatch[1]\<close> when the last route of the file is at
      most two lines away.\<close>
  "nameLastRoute nameMatch lineNumber filePath routes =
     (case nameMatch of
        None \<Rightarrow> routes
      | Some name \<Rightarrow>
          (case map_of routes filePath of
             None \<Rightarrow> routes
           | Some rs \<Rightarrow>
               if rs \<noteq> [] \<and> \<bar>int (rt_line (last rs)) - int lineNumber\<bar> \<le> 2
               then map (\<lambda>kv. if fst kv = filePath
                               then (filePath, butlast rs @ [(last rs)\<lparr>rt_name := Some name\<rparr>])
                               else kv) routes
               else routes))"

definition parseRouteLine ::
  "route_line \<Rightarrow> nat \<Rightarrow> string \<Rightarrow> string list \<Rightarrow> string \<Rightarrow> route_map \<Rightarrow> route_map" where
  "parseRouteLine line lineNumber filePath groupMiddleware groupPrefix routes =
     nameLastRoute (ln_name line) lineNumber filePath
       (fold addRoute (lineRoutes line lineNumber filePath groupMiddleware groupPrefix) routes)"

record parse_state =
  \<comment> \<open>The local variables of \<open>parseRouteFile\<close>, and \<open>this.routes\<close>.\<close>
  currentMiddleware :: "string list"
  currentPrefix :: string
  groupLevel :: nat
  ps_routes :: route_map

definition enterGroup :: "route_line \<Rightarrow> parse_state \<Rightarrow> parse_state" where
  \<comment> \<open>Handle route groups: the call changes the shared array only.\<close>
  "enterGroup line s =
     (if ln_isGroup line
      then s\<lparr>groupLevel := groupLevel s + 1,
             currentMiddleware := fst (parseRouteGroup line (currentMiddleware s) (currentPrefix s))\<rparr>
      else s)"

definition leaveGroup :: "route_line \<Rightarrow> parse_state \<Rightarrow> parse_state" where
  \<comment> \<open>Handle group closing.\<close>
  "leaveGroup line s =
     (if ln_isClosing line \<and> groupLevel s > 0 then
        (if groupLevel s - 1 = 0
         then s\<lparr>groupLevel := groupLevel s - 1, currentMiddleware := [], currentPrefix := []\<rparr>
         else s\<lparr>groupLevel := groupLevel s - 1\<rparr>)
      else s)"

definition line_step :: "string \<Rightarrow> nat \<times> route_line \<Rightarrow> parse_state \<Rightarrow> parse_state" where
  \<comment> \<open>The body of \<open>lines.forEach((line, index) => ...)\<close>, with \<open>lineNumber = index + 1\<close>.\<close>
  "line_step filePath numbered s =
     (let s1 = enterGroup (snd numbered) s;
          s2 = leaveGroup (snd numbered) s1
      in s2\<lparr>ps_routes := parseRouteLine (snd numbered) (fst numbered) filePath
                            (currentMiddleware s2) (currentPrefix s2) (ps_routes s2)\<rparr>)"

type_synonym route_file = "string \<times> string \<times> route_line list option"
  \<comment> \<open>File name, \<open>path.join(routesPath, file)\<close>, and the lines of the file; \<open>None\<close> when
      reading the file throws.\<close>

definition parseRouteFile :: "route_file \<Rightarrow> route_map \<Rightarrow> route_map" where
  "parseRouteFile file routes =
     (case snd (snd file) of
        None \<Rightarrow> routes
      | Some lines \<Rightarrow>
          ps_routes (fold (line_step (fst (snd file))) (enumerate 1 lines)
            \<lparr>currentMiddleware = [], currentPrefix = [], groupLevel = 0, ps_routes = routes\<rparr>))"

definition controllerKeys :: "string \<Rightarrow> string \<Rightarrow> string list" where
  \<comment> \<open>The keys under which \<open>buildControllerRouteMap\<close> indexes a route.\<close>
  "controllerKeys controller controllerMethod =
     [controller @ ''@'' @ controllerMethod]
     @ (if \<not> endsWith controller ''Controller''
        then [controller @ ''Controller@'' @ controllerMethod] else [])
     @ (if endsWith controller ''Controller''
        then (let shortName = replace_first ''Controller'' [] controller
              in [shortName @ ''@'' @ controllerMethod, shortName @ ''Controller@'' @ controllerMethod])
        else [])"

definition indexRoute :: "RouteInfo \<Rightarrow> route_map \<Rightarrow> route_map" where
  "indexRoute route controllerRoutes =
     (case (rt_controller route, rt_controllerMethod route) of
        (Some controller, Some controllerMethod) \<Rightarrow>
          if truthy controller \<and> truthy controllerMethod
          then fold (\<lambda>key. map_push key route) (controllerKeys controller controllerMethod)
                 controllerRoutes
          else controllerRoutes
      | _ \<Rightarrow> controllerRoutes)"

definition buildControllerRouteMap :: "route_map \<Rightarrow> route_map \<Rightarrow> route_map" where
  "buildControllerRouteMap routes controllerRoutes =
     fold indexRoute (concat (map snd routes)) controllerRoutes"

record route_state =
  routes :: route_map
  controllerRoutes :: route_map
  middleware :: "(string \<times> string list) list"

definition parseAllRoutes :: "route_file list option \<Rightarrow> route_state \<Rightarrow> route_state" where
  \<comment> \<open>\<open>dir\<close> is the listing of the \<open>routes\<close> directory, \<open>None\<close> when it does not exist.\<close>
  "parseAllRoutes dir st =
     (let cleared = st\<lparr>routes := [], controllerRoutes := [], middleware := []\<rparr>
      in case dir of
           None \<Rightarrow> cleared
         | Some files \<Rightarrow>
             (let parsed = cleared\<lparr>routes :=
                    fold parseRouteFile (filter (\<lambda>file. endsWith (fst file) ''.php'') files)
                      (routes cleared)\<rparr>
              in parsed\<lparr>controllerRoutes :=
                    buildControllerRouteMap (routes parsed) (controllerRoutes parsed)\<rparr>))"

definition file_routes :: "route_map \<Rightarrow> string \<Rightarrow> RouteInfo list" where
  \<comment> \<open>\<open>this.routes.get(filePath) || []\<close>\<close>
  "file_routes m filePath = (case map_of m filePath of None \<Rightarrow> [] | Some rs \<Rightarrow> rs)"

definition rename_last :: "string \<Rightarrow> RouteInfo list \<Rightarrow> RouteInfo list" where
  \<comment> \<open>The list after \<open>lastRoute.name = name\<close>.\<close>
  "rename_last name rs = butlast rs @ [(last rs)\<lparr>rt_name := Some name\<rparr>]"

definition five_methods :: "RouteInfo \<Rightarrow> bool" where
  \<comment> \<open>The method set of the route is exactly GET, POST, PUT, PATCH, DELETE.\<close>
  "five_methods r = (set (rt_method r) = {''GET'', ''POST'', ''PUT'', ''PATCH'', ''DELETE''})"


section \<open>Translation catalog and usage scanner\<close>

text \<open>
  \<open>TranslationProvider\<close>: \<open>this.translations\<close> maps a key to its entries, one per locale
  file that defines it; \<open>this.usages\<close> lists the references found in the sources. What
  the patterns match in a PHP translation file is a tree of entries (a nested array is
  parsed by a recursive call on its text); what \<open>JSON.parse\<close> returns is a value whose
  objects list their keys in the order \<open>Object.keys\<close> gives them.
\<close>

record TranslationEntry =
  t_key :: string
  t_file :: string
  t_locale :: string
  t_value :: string
  t_line :: "nat option"
  t_isUsed :: bool

record TranslationUsage =
  u_key :: string
  u_file :: string
  u_line :: nat
  u_column :: nat
  u_method :: string

type_synonym catalog = "(string \<times> TranslationEntry list) list"

record translation_state =
  tr_translations :: catalog
  tr_usages :: "TranslationUsage list"

datatype php_entry =
    PhpValue string string string
  | PhpArray string "php_entry list"
  \<comment> \<open>One match of \<open>keyValueRegex\<close>: \<open>PhpValue key simpleValue fullMatch\<close>, or
      \<open>PhpArray key entries\<close> with the matches inside \<open>arrayValue\<close>.\<close>

datatype json_value =
    JsonString string
  | JsonObject "(string \<times> json_value) list"
  | JsonOther
  \<comment> \<open>\<open>JsonObject\<close>: a value with \<open>typeof value === 'object'\<close> that is not \<open>null\<close> (an object
      or an array), as the list of its keys and their values; \<open>JsonOther\<close>: a number, a
      boolean or \<open>null\<close>.\<close>

datatype translation_content =
    PhpContent "string list" "php_entry list option"
  | JsonContent "(string \<times> json_value) list"
  \<comment> \<open>\<open>PhpContent lines entries\<close>: the lines of the file, and the matches in the returned
      array, \<open>None\<close> when the file has no \<open>return [...];\<close>. \<open>JsonContent\<close>: the keys and values
      of the parsed value.\<close>

type_synonym translation_file = "string \<times> string \<times> translation_content option"
  \<comment> \<open>File name, \<open>path.join(localePath, file)\<close>, and the content; \<open>None\<close> when reading the
      file, \<open>JSON.parse\<close> or \<open>Object.keys\<close> of the parsed value throws (the error is caught
      and logged).\<close>

type_synonym locale_entry = "string \<times> bool \<times> translation_file list"
  \<comment> \<open>An entry of a translation root: its name, \<open>isDirectory()\<close>, and the listing of the
      directory.\<close>

definition join_key :: "string \<Rightarrow> string \<Rightarrow> string" where
  \<comment> \<open>\<open>prefix ? `${prefix}.${key}` : key\<close>\<close>
  "join_key prefix key = (if truthy prefix then prefix @ ''.'' @ key else key)"

definition addTranslation ::
  "string \<Rightarrow> string \<Rightarrow> string \<Rightarrow> string \<Rightarrow> nat option \<Rightarrow> catalog \<Rightarrow> catalog" where
  "addTranslation key file locale v line trs =
     map_push key
       \<lparr>t_key = key, t_file = file, t_locale = locale, t_value = v, t_line = line,
        t_isUsed = False\<rparr> trs"

fun first_line_with :: "string \<Rightarrow> nat \<Rightarrow> string list \<Rightarrow> nat" where
  \<comment> \<open>The loop of \<open>findLineNumber\<close>, from index \<open>i\<close> on.\<close>
  "first_line_with needle i [] = 1"
| "first_line_with needle i (l # ls) =
     (if str_includes l needle then i + 1 else first_line_with needle (i + 1) ls)"

definition findLineNumber :: "string list \<Rightarrow> string \<Rightarrow> nat" where
  "findLineNumber lines searchText = first_line_with (take 20 searchText) 0 lines"

fun parsePhpArray ::
  "string list \<Rightarrow> string \<Rightarrow> string \<Rightarrow> string \<Rightarrow> string \<Rightarrow> php_entry \<Rightarrow> catalog \<Rightarrow> catalog" where
  \<comment> \<open>The body of the \<open>while\<close> loop for one match; a nested array is the recursive call.\<close>
  "parsePhpArray lines filePath locale namespace prefix (PhpValue key simpleValue fullMatch) trs =
     addTranslation (namespace @ ''.'' @ join_key prefix key) filePath locale simpleValue
       (Some (findLineNumber lines fullMatch)) trs"
| "parsePhpArray lines filePath locale namespace prefix (PhpArray key entries) trs =
     fold (parsePhpArray lines filePath locale namespace (join_key prefix key)) entries trs"

fun parseJsonObject ::
  "string \<Rightarrow> string \<Rightarrow> string \<Rightarrow> string \<times> json_value \<Rightarrow> catalog \<Rightarrow> catalog" where
  \<comment> \<open>The body of \<open>Object.keys(obj).forEach(key => ...)\<close> for one key and its value.\<close>
  "parseJsonObject filePath locale prefix (key, JsonString v) trs =
     addTranslation (join_key prefix key) filePath locale v None trs"
| "parseJsonObject filePath locale prefix (key, JsonObject kvs) trs =
     fold (parseJsonObject filePath locale (join_key prefix key)) kvs trs"
| "parseJsonObject filePath locale prefix (key, JsonOther) trs = trs"

definition parseTranslationFile :: "string \<Rightarrow> translation_file \<Rightarrow> catalog \<Rightarrow> catalog" where
  \<comment> \<open>The body of \<open>files.forEach\<close> in \<open>scanLocaleDirectory\<close>, after the filter:
      \<open>parsePhpTranslationFile\<close> or \<open>parseJsonTranslationFile\<close>.\<close>
  "parseTranslationFile locale file trs =
     (case file of (fileName, filePath, content) \<Rightarrow>
        if endsWith fileName ''.php'' then
          (case content of
             Some (PhpContent lines (Some entries)) \<Rightarrow>
               fold (parsePhpArray lines filePath locale (replace_first ''.php'' [] fileName) [])
                 entries trs
           | _ \<Rightarrow> trs)
        else if endsWith fileName ''.json'' then
          (case content of
             Some (JsonContent kvs) \<Rightarrow> fold (parseJsonObject filePath locale []) kvs trs
           | _ \<Rightarrow> trs)
        else trs)"

definition scanLocaleDirectory :: "string \<Rightarrow> translation_file list \<Rightarrow> catalog \<Rightarrow> catalog" where
  "scanLocaleDirectory locale files trs =
     fold (parseTranslationFile locale)
       (filter (\<lambda>file. endsWith (fst file) ''.php'' \<or> endsWith (fst file) ''.json'') files) trs"

definition scanTranslationDirectory :: "locale_entry list \<Rightarrow> catalog \<Rightarrow> catalog" where
  "scanTranslationDirectory entries trs =
     fold (\<lambda>dirent. scanLocaleDirectory (fst dirent) (snd (snd dirent)))
       (filter (\<lambda>dirent. fst (snd dirent)) entries) trs"

definition loadTranslations :: "locale_entry list option list \<Rightarrow> catalog \<Rightarrow> catalog" where
  \<comment> \<open>\<open>roots\<close>: the listings of \<open>lang\<close> and \<open>resources/lang\<close>, \<open>None\<close> for one that does not
      exist.\<close>
  "loadTranslations roots trs =
     fold scanTranslationDirectory (concat (map (\<lambda>root. case root of None \<Rightarrow> [] | Some es \<Rightarrow> [es]) roots)) trs"

definition markTranslationAsUsed :: "string \<Rightarrow> catalog \<Rightarrow> catalog" where
  \<comment> \<open>\<open>this.translations.get(key)\<close>, then \<open>t.isUsed = true\<close> for each of its entries.\<close>
  "markTranslationAsUsed key trs =
     map (\<lambda>kv. if fst kv = key then (fst kv, map (\<lambda>t. t\<lparr>t_isUsed := True\<rparr>) (snd kv)) else kv) trs"

definition usagePatterns :: "string list" where
  \<comment> \<open>The \<open>method\<close> of each of the six patterns, in their order.\<close>
  "usagePatterns = [''trans'', ''__'', ''trans_choice'', ''@lang'', ''trans'', ''__'']"

fun line_of_index :: "nat \<Rightarrow> nat \<Rightarrow> nat \<Rightarrow> string list \<Rightarrow> nat \<Rightarrow> nat" where
  \<comment> \<open>The loop of \<open>findLineNumberForMatch\<close>: \<open>i\<close>, \<open>currentIndex\<close>, the lines from \<open>i\<close> on
      and \<open>lines.length\<close>.\<close>
  "line_of_index index i currentIndex [] n = n"
| "line_of_index index i currentIndex (l # ls) n =
     (if currentIndex + length l + 1 > index then i + 1
      else line_of_index index (i + 1) (currentIndex + length l + 1) ls n)"

definition findLineNumberForMatch :: "string list \<Rightarrow> nat \<Rightarrow> nat" where
  "findLineNumberForMatch lines index = line_of_index index 0 0 lines (length lines)"

definition findColumnForMatch :: "string \<Rightarrow> nat \<Rightarrow> nat" where
  \<comment> \<open>\<open>index - beforeMatch.lastIndexOf('\n')\<close>, the latter \<open>-1\<close> when there is no line feed:
      the number of characters after the last line feed before the match, plus one.\<close>
  "findColumnForMatch content index =
     length (takeWhile (\<lambda>c. c \<noteq> CHR 0x0A) (rev (take index content))) + 1"

type_synonym source_file = "string \<times> (string \<times> (string \<times> nat) list list) option"
  \<comment> \<open>The path of a source file, its text, and for each of the six patterns the key and
      the index of every match; \<open>None\<close> when reading the file throws.\<close>

definition usage_step ::
  "string \<Rightarrow> string \<Rightarrow> string \<Rightarrow> string \<times> nat \<Rightarrow> translation_state \<Rightarrow> translation_state" where
  \<comment> \<open>The body of the \<open>while\<close> loop of \<open>scanFileForUsages\<close> for one match.\<close>
  "usage_step filePath content method m st =
     st\<lparr>tr_usages := tr_usages st @
            [\<lparr>u_key = fst m, u_file = filePath,
              u_line = findLineNumberForMatch (split_on CHR 0x0A content) (snd m),
              u_column = findColumnForMatch content (snd m), u_method = method\<rparr>],
        tr_translations := markTranslationAsUsed (fst m) (tr_translations st)\<rparr>"

definition scanFileForUsages :: "source_file \<Rightarrow> translation_state \<Rightarrow> translation_state" where
  "scanFileForUsages file st =
     (case snd file of
        None \<Rightarrow> st
      | Some (content, matches) \<Rightarrow>
          fold (\<lambda>pm. fold (usage_step (fst file) content (fst pm)) (snd pm))
            (zip usagePatterns matches) st)"

definition scanForUsages :: "source_file list \<Rightarrow> translation_state \<Rightarrow> translation_state" where
  \<comment> \<open>\<open>sources\<close>: the files that the two \<open>findFiles\<close> calls deliver, in the order in which
      they are scanned.\<close>
  "scanForUsages sources st = fold scanFileForUsages sources st"

definition reloadTranslations ::
  "locale_entry list option list \<Rightarrow> source_file list \<Rightarrow> translation_state \<Rightarrow> translation_state" where
  "reloadTranslations roots sources st =
     scanForUsages sources
       (st\<lparr>tr_translations := loadTranslations roots [], tr_usages := []\<rparr>)"

definition getUnusedTranslations :: "translation_state \<Rightarrow> TranslationEntry list" where
  "getUnusedTranslations st =
     concat (map (\<lambda>kv. filter (\<lambda>translation. \<not> t_isUsed translation) (snd kv)) (tr_translations st))"

definition catalog_entries :: "catalog \<Rightarrow> TranslationEntry list" where
  \<comment> \<open>Every entry of the catalog, in the order in which the map is traversed.\<close>
  "catalog_entries trs = concat (map snd trs)"

definition keyed :: "catalog \<Rightarrow> bool" where
  \<comment> \<open>Every entry is stored under its own key.\<close>
  "keyed trs = list_all (\<lambda>kv. list_all (\<lambda>t. t_key t = fst kv) (snd kv)) trs"

definition fresh :: "catalog \<Rightarrow> bool" where
  \<comment> \<open>A catalog as \<open>loadTranslations\<close> leaves it: every entry under its own key, none used.\<close>
  "fresh trs = list_all (\<lambda>kv. list_all (\<lambda>t. t_key t = fst kv \<and> \<not> t_isUsed t) (snd kv)) trs"

definition scanned :: "translation_state \<Rightarrow> bool" where
  \<comment> \<open>The invariant of the usage scan: an entry is used exactly when its key is among the
      usages found so far.\<close>
  "scanned st =
     (keyed (tr_translations st)
      \<and> list_all (\<lambda>t. t_isUsed t = (t_key t \<in> u_key ` set (tr_usages st)))
          (catalog_entries (tr_translations st)))"


section \<open>Validation rule registry\<close>

text \<open>
  \<open>LaravelValidationCompletionProvider\<close> owns the rule catalog and the table map built from
  the migrations; \<open>ValidationDiagnosticsProvider\<close> and \<open>ValidationCodeActionProvider\<close> read
  them. The description and the documentation link of a rule, which none of the
  functions below reads, are left out of the catalog.
\<close>

datatype js_error = TypeError

record ValidationParameter =
  vp_name :: string
  vp_type :: string
  vp_required :: bool

record ValidationRule =
  v_name :: string
  v_parameters :: "ValidationParameter list option"
  v_examples :: "string list"
  v_category :: string

definition plain_rule :: "string \<Rightarrow> string list \<Rightarrow> string \<Rightarrow> ValidationRule" where
  \<comment> \<open>A catalog entry without a \<open>parameters\<close> property.\<close>
  "plain_rule n ex cat = \<lparr>v_name = n, v_parameters = None, v_examples = ex, v_category = cat\<rparr>"

definition param_rule ::
  "string \<Rightarrow> ValidationParameter list \<Rightarrow> string list \<Rightarrow> string \<Rightarrow> ValidationRule" where
  "param_rule n ps ex cat = \<lparr>v_name = n, v_parameters = Some ps, v_examples = ex, v_category = cat\<rparr>"

definition table_parameters :: "ValidationParameter list" where
  \<comment> \<open>The parameters of \<open>unique\<close> and of \<open>exists\<close>.\<close>
  "table_parameters =
     [\<lparr>vp_name = ''table'', vp_type = ''string'', vp_required = True\<rparr>,
      \<lparr>vp_name = ''column'', vp_type = ''string'', vp_required = False\<rparr>]"

definition validationRules :: "ValidationRule list" where
  \<comment> \<open>\<open>initializeValidationRules\<close>\<close>
  "validationRules =
     [plain_rule ''required'' [''required''] ''Basic'',
      plain_rule ''nullable'' [''nullable''] ''Basic'',
      plain_rule ''string'' [''string''] ''String'',
      plain_rule ''integer'' [''integer''] ''Numeric'',
      plain_rule ''numeric'' [''numeric''] ''Numeric'',
      plain_rule ''boolean'' [''boolean''] ''Boolean'',
      plain_rule ''email'' [''email'', ''email:rfc,dns''] ''Format'',
      param_rule ''min'' [\<lparr>vp_name = ''value'', vp_type = ''integer'', vp_required = True\<rparr>]
        [''min:3'', ''min:8''] ''Size'',
      param_rule ''max'' [\<lparr>vp_name = ''value'', vp_type = ''integer'', vp_required = True\<rparr>]
        [''max:255'', ''max:100''] ''Size'',
      plain_rule ''confirmed'' [''confirmed''] ''Confirmation'',
      param_rule ''unique'' table_parameters [''unique:users'', ''unique:users,email''] ''Database'',
      param_rule ''exists'' table_parameters [''exists:users'', ''exists:users,id''] ''Database'',
      param_rule ''in'' [\<lparr>vp_name = ''values'', vp_type = ''string'', vp_required = True\<rparr>]
        [''in:admin,user,guest'', ''in:red,green,blue''] ''Options'',
      param_rule ''regex'' [\<lparr>vp_name = ''pattern'', vp_type = ''string'', vp_required = True\<rparr>]
        [''regex:/^[A-Za-z0-9]+$/'',
         ''regex:/^'' @ [CHR 0x5C] @ ''+?[1-9]'' @ [CHR 0x5C] @ ''d{1,14}$/''] ''Pattern'',
      plain_rule ''date'' [''date''] ''Date'',
      plain_rule ''file'' [''file''] ''File'',
      plain_rule ''image'' [''image''] ''File'']"

definition getValidationRule :: "string \<Rightarrow> ValidationRule option" where
  "getValidationRule n = find (\<lambda>rule. v_name rule = n) validationRules"

subsection \<open>Compatibility filtering\<close>

definition mutuallyExclusive :: "(string \<times> string list) list" where
  "mutuallyExclusive =
     [(''required'', [''nullable'', ''sometimes'']),
      (''nullable'', [''required'']),
      (''string'', [''numeric'', ''integer'', ''boolean'', ''array'', ''file'', ''image'']),
      (''numeric'', [''string'', ''boolean'', ''array'', ''file'', ''image'']),
      (''integer'', [''string'', ''boolean'', ''array'', ''file'', ''image'', ''decimal'']),
      (''boolean'', [''string'', ''numeric'', ''integer'', ''array'', ''file'', ''image'']),
      (''array'', [''string'', ''numeric'', ''integer'', ''boolean'', ''file'', ''image'']),
      (''file'', [''string'', ''numeric'', ''integer'', ''boolean'', ''array'']),
      (''image'', [''string'', ''numeric'', ''integer'', ''boolean'', ''array''])]"

definition conflicts_of :: "string \<Rightarrow> js_error + string list" where
  \<comment> \<open>\<open>mutuallyExclusive[name] || []\<close>, as far as the method call that follows can use it:
      for a name the object literal inherits, the value is a member of \<open>Object.prototype\<close>,
      which has neither \<open>some\<close> nor \<open>includes\<close>, and the call throws.\<close>
  "conflicts_of n =
     (case map_of mutuallyExclusive n of
        Some conflicts \<Rightarrow> Inr conflicts
      | None \<Rightarrow> if n \<in> set object_prototype_members then Inl TypeError else Inr [])"

fun existing_conflict :: "string \<Rightarrow> string list \<Rightarrow> js_error + bool" where
  \<comment> \<open>The loop \<open>for (const existingRule of currentRules)\<close>, and the \<open>return true\<close> after it.\<close>
  "existing_conflict ruleName [] = Inr True"
| "existing_conflict ruleName (existingRule # rest) =
     (case conflicts_of existingRule of
        Inl e \<Rightarrow> Inl e
      | Inr existingConflicts \<Rightarrow>
          if ruleName \<in> set existingConflicts then Inr False
          else existing_conflict ruleName rest)"

definition isRuleApplicable :: "ValidationRule \<Rightarrow> string list \<Rightarrow> string \<Rightarrow> js_error + bool" where
  "isRuleApplicable rule currentRules fieldName =
     (case conflicts_of (v_name rule) of
        Inl e \<Rightarrow> Inl e
      | Inr conflicts \<Rightarrow>
          if list_ex (\<lambda>conflict. conflict \<in> set currentRules) conflicts then Inr False
          else existing_conflict (v_name rule) currentRules)"

fun filter_applicable ::
  "ValidationRule list \<Rightarrow> string list \<Rightarrow> string \<Rightarrow> js_error + ValidationRule list" where
  \<comment> \<open>\<open>rules.filter(rule => !currentRules.includes(rule.name) && this.isRuleApplicable(...))\<close>;
      an exception in the callback ends the filter.\<close>
  "filter_applicable [] currentRules fieldName = Inr []"
| "filter_applicable (rule # rules) currentRules fieldName =
     (if v_name rule \<in> set currentRules then filter_applicable rules currentRules fieldName
      else
        (case isRuleApplicable rule currentRules fieldName of
           Inl e \<Rightarrow> Inl e
         | Inr applicable \<Rightarrow>
             (case filter_applicable rules currentRules fieldName of
                Inl e \<Rightarrow> Inl e
              | Inr available \<Rightarrow> Inr (if applicable then rule # available else available))))"

definition availableRules :: "string list \<Rightarrow> string \<Rightarrow> js_error + ValidationRule list" where
  \<comment> \<open>The rules that \<open>provideValidationRuleCompletions\<close> turns into completion items.\<close>
  "availableRules currentRules fieldName = filter_applicable validationRules currentRules fieldName"

definition declares_conflict :: "string \<Rightarrow> string \<Rightarrow> bool" where
  \<comment> \<open>The mutual-exclusion table lists \<open>b\<close> among the conflicts of \<open>a\<close>.\<close>
  "declares_conflict a b =
     (case map_of mutuallyExclusive a of Some conflicts \<Rightarrow> b \<in> set conflicts | None \<Rightarrow> False)"

subsection \<open>Tables of the migrations\<close>

record DatabaseTable =
  dt_name :: string
  dt_columns :: "string list"

record schema_content =
  \<comment> \<open>What \<open>parseMigrationForSchema\<close> recognises in a migration: group 1 of the
      \<open>Schema::create\<close> match, and for the four column patterns group 1 of every match of
      the first (\<open>None\<close> when the optional group does not take part), group 1 of every match
      of the second, and the number of matches of the third and of the fourth.\<close>
  sc_createMatch :: "string option"
  sc_ids :: "string option list"
  sc_columns :: "string list"
  sc_timestamps :: nat
  sc_softDeletes :: nat

type_synonym schema_file = "string \<times> schema_content option"
  \<comment> \<open>File name, and the content; \<open>None\<close> when reading the file throws.\<close>

type_synonym table_map = "(string \<times> DatabaseTable) list"

definition schema_columns :: "schema_content \<Rightarrow> string list" where
  "schema_columns c =
     map (\<lambda>m. case m of None \<Rightarrow> ''id'' | Some n \<Rightarrow> if truthy n then n else ''id'') (sc_ids c)
     @ sc_columns c
     @ concat (replicate (sc_timestamps c) [''created_at'', ''updated_at''])
     @ replicate (sc_softDeletes c) ''deleted_at''"

definition parseMigrationForSchema :: "schema_file \<Rightarrow> table_map \<Rightarrow> table_map" where
  "parseMigrationForSchema file tables =
     (case snd file of
        None \<Rightarrow> tables
      | Some c \<Rightarrow>
          (case sc_createMatch c of
             None \<Rightarrow> tables
           | Some tableName \<Rightarrow>
               object_set tableName \<lparr>dt_name = tableName, dt_columns = schema_columns c\<rparr> tables))"

definition analyzeDatabaseSchema :: "schema_file list option \<Rightarrow> table_map \<Rightarrow> table_map" where
  \<comment> \<open>\<open>this.databaseTables\<close> after the call, from its value before: cleared, then rebuilt.\<close>
  "analyzeDatabaseSchema dir tables =
     (case dir of
        None \<Rightarrow> []
      | Some files \<Rightarrow>
          fold parseMigrationForSchema
            (sort_key fst (filter (\<lambda>file. endsWith (fst file) ''.php'') files)) [])"

definition created_table :: "schema_file \<Rightarrow> string list" where
  \<comment> \<open>The table that one migration file creates, if any.\<close>
  "created_table sf =
     (case snd sf of None \<Rightarrow> [] | Some c \<Rightarrow> (case sc_createMatch c of None \<Rightarrow> [] | Some t \<Rightarrow> [t]))"

definition migration_tables :: "schema_file list option \<Rightarrow> string list" where
  \<comment> \<open>The tables that the migrations define: the table of the \<open>Schema::create\<close> call of
      every readable \<open>.php\<close> file of the migrations directory.\<close>
  "migration_tables dir =
     (case dir of
        None \<Rightarrow> []
      | Some files \<Rightarrow>
          concat (map (\<lambda>file. case snd file of
                                None \<Rightarrow> []
                              | Some c \<Rightarrow> (case sc_createMatch c of None \<Rightarrow> [] | Some t \<Rightarrow> [t]))
                    (filter (\<lambda>file. endsWith (fst file) ''.php'') files)))"

subsection \<open>Diagnostics and quick fixes\<close>

fun show_nat :: "nat \<Rightarrow> string" where
  \<comment> \<open>A number in a template literal: its decimal digits.\<close>
  "show_nat n =
     (if n < 10 then [char_of (48 + n)] else show_nat (n div 10) @ [char_of (48 + n mod 10)])"

declare show_nat.simps [simp del]

datatype severity = Error | Warning

record issue =
  i_message :: string
  i_severity :: severity
  i_code :: string

definition unknown_rule_issue :: "string \<Rightarrow> issue" where
  "unknown_rule_issue ruleName =
     \<lparr>i_message = ''Unknown validation rule: '' @ ruleName, i_severity = Error,
      i_code = ''unknown-rule''\<rparr>"

definition missing_parameters_issue :: "string \<Rightarrow> nat \<Rightarrow> nat \<Rightarrow> issue" where
  "missing_parameters_issue ruleName expectedParams providedParams =
     \<lparr>i_message = ''Rule '' @ sq @ ruleName @ sq @ '' requires '' @ show_nat expectedParams
                   @ '' parameter(s), got '' @ show_nat providedParams,
      i_severity = Error, i_code = ''missing-parameters''\<rparr>"

definition table_not_found_issue :: "string \<Rightarrow> issue" where
  "table_not_found_issue tableName =
     \<lparr>i_message = ''Table '' @ sq @ tableName @ sq @ '' not found in database schema'',
      i_severity = Warning, i_code = ''table-not-found''\<rparr>"

definition first_piece :: "char \<Rightarrow> string \<Rightarrow> string" where
  \<comment> \<open>\<open>s.split(sep)[0]\<close>\<close>
  "first_piece sep s = (case split_on sep s of p # ps \<Rightarrow> p | [] \<Rightarrow> [])"

definition validateRule :: "table_map \<Rightarrow> string \<Rightarrow> issue list" where
  \<comment> \<open>\<open>tables\<close> is \<open>this.validationProvider.getDatabaseTables()\<close>.\<close>
  "validateRule tables rule =
     (case split_on CHR '':'' rule of
        [] \<Rightarrow> []
      | ruleName # params \<Rightarrow>
          (case getValidationRule ruleName of
             None \<Rightarrow> [unknown_rule_issue ruleName]
           | Some ruleDefinition \<Rightarrow>
               (case v_parameters ruleDefinition of
                  None \<Rightarrow> []
                | Some parameters \<Rightarrow>
                    (let expectedParams = length (filter vp_required parameters);
                         providedParams = (case params of
                                             [] \<Rightarrow> 0
                                           | p # ps \<Rightarrow> length (split_on CHR '','' p))
                     in if providedParams < expectedParams
                        then [missing_parameters_issue ruleName expectedParams providedParams]
                        else []))
               @ (if ruleName = ''exists'' \<or> ruleName = ''unique'' then
                    (case params of
                       [] \<Rightarrow> []
                     | p # ps \<Rightarrow>
                         (let tableName = first_piece CHR '','' p
                          in if map_of tables tableName = None
                             then [table_not_found_issue tableName] else []))
                  else [])))"

fun expand_replacement :: "string \<Rightarrow> string \<Rightarrow> string \<Rightarrow> string \<Rightarrow> string" where
  \<comment> \<open>The replacement text of \<open>String.prototype.replace\<close> for a pattern without groups:
      \<open>$$\<close>, \<open>$&\<close>, \<open>$`\<close> and \<open>$'\<close> stand for a dollar sign, the match, the text before it and
      the text after it.\<close>
  "expand_replacement before matched after [] = []"
| "expand_replacement before matched after [c] = [c]"
| "expand_replacement before matched after (c # d # rest) =
     (if c = CHR ''$'' \<and> d = CHR ''$'' then CHR ''$'' # expand_replacement before matched after rest
      else if c = CHR ''$'' \<and> d = CHR ''&'' then matched @ expand_replacement before matched after rest
      else if c = CHR ''$'' \<and> d = CHR 0x60 then before @ expand_replacement before matched after rest
      else if c = CHR ''$'' \<and> d = CHR 0x27 then after @ expand_replacement before matched after rest
      else c # expand_replacement before matched after (d # rest))"

definition table_char :: "char \<Rightarrow> bool" where
  \<comment> \<open>The character class \<open>[^,)]\<close>.\<close>
  "table_char c = (c \<noteq> CHR '','' \<and> c \<noteq> CHR '')'')"

fun replace_exists :: "string \<Rightarrow> string \<Rightarrow> string \<Rightarrow> string" where
  \<comment> \<open>\<open>text.replace(/exists:[^,)]+/, replacement)\<close>, with the text already passed in
      \<open>before\<close>, reversed.\<close>
  "replace_exists before [] replacement = rev before"
| "replace_exists before (c # cs) replacement =
     (if startsWith (c # cs) ''exists:'' \<and> drop 7 (c # cs) \<noteq> [] \<and> table_char (hd (drop 7 (c # cs)))
      then
        (let run = takeWhile table_char (drop 7 (c # cs));
             after = dropWhile table_char (drop 7 (c # cs))
         in rev before @ expand_replacement (rev before) (''exists:'' @ run) after replacement @ after)
      else replace_exists (c # before) cs replacement)"

record code_action =
  \<comment> \<open>The title of the quick fix and the text its edit puts in the diagnostic's range.\<close>
  a_title :: string
  a_newText :: string

definition createTableNotFoundActions :: "table_map \<Rightarrow> string \<Rightarrow> code_action list" where
  \<comment> \<open>\<open>currentText\<close> is the text of the document in the range of the diagnostic.\<close>
  "createTableNotFoundActions tables currentText =
     map (\<lambda>tableName.
            \<lparr>a_title = ''Use table '' @ sq @ tableName @ sq,
             a_newText = replace_exists [] currentText (''exists:'' @ tableName)\<rparr>)
       (take 5 (map fst tables))"


section \<open>Example inputs\<close>

definition post_model :: model_content where
  \<comment> \<open>A model class \<open>Post\<close> with \<open>$fillable = ['title']\<close> and \<open>$casts = ['title' => 'integer']\<close>.\<close>
  "post_model = \<lparr>mo_isModel = True, mo_tableMatch = None, mo_fillable = Some [''title''],
     mo_hidden = None, mo_casts = Some [(''title'', ''integer'')], mo_relationships = []\<rparr>"

definition create_posts :: migration_file where
  \<comment> \<open>\<open>Schema::create('posts', ...)\<close> with \<open>$table->string('title')->nullable();\<close> and
      \<open>$table->timestamps();\<close>.\<close>
  "create_posts = (''2024_01_01_000000_create_posts_table.php'',
     Some \<lparr>mc_createMatch = Some ''posts'', mc_tableMatch = None,
       mc_columns = [\<lparr>cm_columnType = ''string'', cm_columnName = ''title'',
                      cm_modifiers = ''->nullable()'', cm_default = None\<rparr>],
       mc_calls = [\<lparr>cl_method = ''timestamps'', cl_chain = ''''\<rparr>]\<rparr>)"

definition empty_schema :: schema_state where
  "empty_schema = \<lparr>models = Map.empty, migrations = Map.empty\<rparr>"

definition create_orders :: migration_file where
  \<comment> \<open>\<open>Schema::create('orders', ...)\<close> with \<open>$table->string('status');\<close>.\<close>
  "create_orders = (''2024_01_01_000000_create_orders_table.php'',
     Some \<lparr>mc_createMatch = Some ''orders'', mc_tableMatch = None,
       mc_columns = [\<lparr>cm_columnType = ''string'', cm_columnName = ''status'',
                      cm_modifiers = '''', cm_default = None\<rparr>],
       mc_calls = []\<rparr>)"

definition alter_orders :: migration_file where
  \<comment> \<open>\<open>Schema::table('orders', ...)\<close> with \<open>$table->string('status')->nullable()->change();\<close>.\<close>
  "alter_orders = (''2024_02_01_000000_make_status_nullable.php'',
     Some \<lparr>mc_createMatch = None, mc_tableMatch = Some ''orders'',
       mc_columns = [\<lparr>cm_columnType = ''string'', cm_columnName = ''status'',
                      cm_modifiers = ''->nullable()->change()'', cm_default = None\<rparr>],
       mc_calls = []\<rparr>)"

definition created_at_column :: migration_file where
  \<comment> \<open>\<open>Schema::create('orders', ...)\<close> with \<open>$table->string('created_at');\<close>.\<close>
  "created_at_column = (''2024_01_01_000000_create_orders_table.php'',
     Some \<lparr>mc_createMatch = Some ''orders'', mc_tableMatch = None,
       mc_columns = [\<lparr>cm_columnType = ''string'', cm_columnName = ''created_at'',
                      cm_modifiers = '''', cm_default = None\<rparr>],
       mc_calls = []\<rparr>)"

definition add_timestamps :: migration_file where
  \<comment> \<open>\<open>Schema::table('orders', ...)\<close> with \<open>$table->timestamps();\<close>.\<close>
  "add_timestamps = (''2024_02_01_000000_add_timestamps_to_orders.php'',
     Some \<lparr>mc_createMatch = None, mc_tableMatch = Some ''orders'',
       mc_columns = [],
       mc_calls = [\<lparr>cl_method = ''timestamps'', cl_chain = ''''\<rparr>]\<rparr>)"

definition order_model :: model_content where
  \<comment> \<open>A model class \<open>Order\<close> with \<open>$fillable = ['status']\<close>.\<close>
  "order_model = \<lparr>mo_isModel = True, mo_tableMatch = None, mo_fillable = Some [''status''],
     mo_hidden = None, mo_casts = None, mo_relationships = []\<rparr>"

definition admin_group_lines :: "route_line list" where
  \<comment> \<open>The three lines
      \<open>Route::group(['prefix' => 'admin', 'middleware' => ['auth']], function () {\<close>,
      \<open>    Route::get('users', 'UserController@index');\<close> and \<open>});\<close>.\<close>
  "admin_group_lines =
     [\<lparr>ln_isGroup = True, ln_isClosing = False,
       ln_groupMiddleware = Some ([CHR 0x27] @ ''auth'' @ [CHR 0x27]),
       ln_groupPrefix = Some ''admin'', ln_controllerAt = None, ln_controllerClass = None,
       ln_resource = None, ln_closure = None, ln_name = None, ln_middleware = None,
       ln_middlewareArray = None, ln_column = 0\<rparr>,
      \<lparr>ln_isGroup = False, ln_isClosing = False, ln_groupMiddleware = None,
       ln_groupPrefix = None,
       ln_controllerAt = Some (Get, ''users'', ''UserController'', ''index''),
       ln_controllerClass = None, ln_resource = None, ln_closure = None, ln_name = None,
       ln_middleware = None, ln_middlewareArray = None, ln_column = 4\<rparr>,
      \<lparr>ln_isGroup = False, ln_isClosing = True, ln_groupMiddleware = None,
       ln_groupPrefix = None, ln_controllerAt = None, ln_controllerClass = None,
       ln_resource = None, ln_closure = None, ln_name = None, ln_middleware = None,
       ln_middlewareArray = None, ln_column = - 1\<rparr>]"

definition admin_routes_file :: route_file where
  "admin_routes_file = (''web.php'', ''routes/web.php'', Some admin_group_lines)"

definition photos_line :: route_line where
  \<comment> \<open>The line \<open>Route::resource('photos', PhotoController::class);\<close>\<close>
  "photos_line =
     \<lparr>ln_isGroup = False, ln_isClosing = False, ln_groupMiddleware = None,
      ln_groupPrefix = None, ln_controllerAt = None, ln_controllerClass = None,
      ln_resource = Some (Resource, ''photos'', ''PhotoController''), ln_closure = None,
      ln_name = None, ln_middleware = None, ln_middlewareArray = None, ln_column = 0\<rparr>"

definition welcome_roots :: "locale_entry list option list" where
  \<comment> \<open>\<open>lang/en/messages.php\<close> with the key \<open>welcome\<close> and \<open>lang/fr/messages.php\<close> with the
      keys \<open>welcome\<close> and \<open>bye\<close>; no \<open>resources/lang\<close> directory.\<close>
  "welcome_roots =
     [Some [(''en'', True,
              [(''messages.php'', ''lang/en/messages.php'',
                Some (PhpContent
                        [''<?php'', ''return ['',
                         ''    '' @ sq @ ''welcome'' @ sq @ '' => '' @ sq @ ''Welcome'' @ sq @ '','',
                         ''];'']
                        (Some [PhpValue ''welcome'' ''Welcome''
                                 (sq @ ''welcome'' @ sq @ '' => '' @ sq @ ''Welcome'' @ sq)])))]),
            (''fr'', True,
              [(''messages.php'', ''lang/fr/messages.php'',
                Some (PhpContent
                        [''<?php'', ''return ['',
                         ''    '' @ sq @ ''welcome'' @ sq @ '' => '' @ sq @ ''Bienvenue'' @ sq @ '','',
                         ''    '' @ sq @ ''bye'' @ sq @ '' => '' @ sq @ ''Au revoir'' @ sq @ '','',
                         ''];'']
                        (Some [PhpValue ''welcome'' ''Bienvenue''
                                 (sq @ ''welcome'' @ sq @ '' => '' @ sq @ ''Bienvenue'' @ sq),
                               PhpValue ''bye'' ''Au revoir''
                                 (sq @ ''bye'' @ sq @ '' => '' @ sq @ ''Au revoir'' @ sq)])))])],
      None]"

definition welcome_sources :: "source_file list" where
  \<comment> \<open>A template whose second line is \<open><h1>{{ __('messages.welcome') }}</h1>\<close>: the second
      pattern matches at index 13 and the sixth at index 10.\<close>
  "welcome_sources =
     [(''resources/views/home.blade.php'',
       Some (''<div>'' @ [CHR 0x0A] @ ''<h1>{{ __('' @ sq @ ''messages.welcome'' @ sq @ '') }}</h1>''
               @ [CHR 0x0A] @ ''</div>'',
             [[], [(''messages.welcome'', 13)], [], [], [], [(''messages.welcome'', 10)]]))]"

definition empty_translations :: translation_state where
  "empty_translations = \<lparr>tr_translations = [], tr_usages = []\<rparr>"

definition users_posts_migrations :: "schema_file list option" where
  \<comment> \<open>Two migrations: \<open>Schema::create('users', ...)\<close> and \<open>Schema::create('posts', ...)\<close>.\<close>
  "users_posts_migrations =
     Some [(''2024_01_01_000000_create_users_table.php'',
            Some \<lparr>sc_createMatch = Some ''users'', sc_ids = [None], sc_columns = [''name'', ''email''],
                  sc_timestamps = 1, sc_softDeletes = 0\<rparr>),
           (''2024_01_02_000000_create_posts_table.php'',
            Some \<lparr>sc_createMatch = Some ''posts'', sc_ids = [None], sc_columns = [''title'', ''user_id''],
                  sc_timestamps = 1, sc_softDeletes = 0\<rparr>)]"


section \<open>Field lists: lookup after each block\<close>

lemma new_field_sel [simp]:
  "f_name (new_field n t b) = n" "f_type (new_field n t b) = t"
  "f_nullable (new_field n t b) = b" "f_default (new_field n t b) = None"
  "f_comment (new_field n t b) = None"
  by (simp_all add: new_field_def)

lemma find_field_Nil [simp]: "find_field n [] = None"
  by (simp add: find_field_def)

lemma find_field_Cons [simp]:
  "find_field n (f # fs) = (if f_name f = n then Some f else find_field n fs)"
  by (simp add: find_field_def)

lemma find_field_append:
  "find_field n (xs @ ys) = (case find_field n xs of None \<Rightarrow> find_field n ys | Some f \<Rightarrow> Some f)"
  by (induction xs) auto

lemma find_field_name: "find_field n fs = Some f \<Longrightarrow> f_name f = n"
  by (induction fs) (auto split: if_splits)

lemma find_field_mem: "find_field n fs = Some f \<Longrightarrow> f \<in> set fs"
  by (induction fs) (auto split: if_splits)

lemma find_field_None_iff: "find_field n fs = None \<longleftrightarrow> n \<notin> f_name ` set fs"
  by (induction fs) auto

lemma find_field_update_found:
  assumes "\<And>f. f_name (g f) = f_name f"
  shows "find_field n (update_found k g fs) =
         (if n = k then map_option g (find_field n fs) else find_field n fs)"
  using assms by (induction fs) auto

lemma names_update_found:
  assumes "\<And>f. f_name (g f) = f_name f"
  shows "map f_name (update_found k g fs) = map f_name fs"
  using assms by (induction fs) auto

lemma find_fillable_step:
  "find_field n (fillable_step x fs) =
     (case find_field n fs of
        Some f \<Rightarrow> Some f
      | None \<Rightarrow> if truthy x \<and> truthy (trim x) \<and> trim x = n
                then Some (new_field n (TypeName ''string'') False) else None)"
  by (auto simp: fillable_step_def find_field_append new_field_def split: option.splits)

lemma find_hidden_step:
  "find_field n (hidden_step x fs) =
     (case find_field n fs of
        Some f \<Rightarrow> Some f
      | None \<Rightarrow> if truthy x \<and> truthy (trim x) \<and> trim x = n
                then Some (new_field n (TypeName ''string'') False) else None)"
  by (auto simp: hidden_step_def find_field_append new_field_def split: option.splits)

lemma find_fold_fillable:
  "find_field n (fold fillable_step xs fs) =
     (case find_field n fs of
        Some f \<Rightarrow> Some f
      | None \<Rightarrow> if n \<in> trim ` {x \<in> set xs. truthy x \<and> truthy (trim x)}
                then Some (new_field n (TypeName ''string'') False) else None)"
proof (induction xs arbitrary: fs)
  case Nil
  then show ?case by (simp split: option.splits)
next
  case (Cons x xs)
  show ?case
    by (simp add: Cons.IH find_fillable_step split: option.splits) blast
qed

lemma find_fold_hidden:
  "find_field n (fold hidden_step xs fs) =
     (case find_field n fs of
        Some f \<Rightarrow> Some f
      | None \<Rightarrow> if n \<in> trim ` {x \<in> set xs. truthy x \<and> truthy (trim x)}
                then Some (new_field n (TypeName ''string'') False) else None)"
proof (induction xs arbitrary: fs)
  case Nil
  then show ?case by (simp split: option.splits)
next
  case (Cons x xs)
  show ?case
    by (simp add: Cons.IH find_hidden_step split: option.splits) blast
qed

lemma find_cast_step:
  "find_field n (cast_step (k, ct) fs) =
     (if n = k \<and> truthy k \<and> truthy ct then
        Some (case find_field n fs of
                Some f \<Rightarrow> f\<lparr>f_type := castToType ct\<rparr>
              | None \<Rightarrow> new_field n (castToType ct) False)
      else find_field n fs)"
  by (auto simp: cast_step_def Let_def find_field_append find_field_update_found new_field_def
      split: option.splits)

lemma find_fold_cast:
  assumes "distinct (map fst es)"
  shows "find_field n (fold cast_step es fs) =
     (case map_of es n of
        Some ct \<Rightarrow>
          if truthy n \<and> truthy ct then
            Some (case find_field n fs of
                    Some f \<Rightarrow> f\<lparr>f_type := castToType ct\<rparr>
                  | None \<Rightarrow> new_field n (castToType ct) False)
          else find_field n fs
      | None \<Rightarrow> find_field n fs)"
  using assms
proof (induction es arbitrary: fs)
  case Nil
  then show ?case by simp
next
  case (Cons e es)
  obtain k ct where e: "e = (k, ct)" by (cases e)
  from Cons.prems have d: "distinct (map fst es)" and k: "k \<notin> fst ` set es"
    by (auto simp: e)
  from k have none: "map_of es k = None"
    by (simp add: map_of_eq_None_iff)
  show ?case
    using none by (auto simp: e Cons.IH [OF d] find_cast_step split: option.splits)
qed

lemma find_migration_step:
  "find_field n (migration_step m fs) =
     (if n = f_name m then
        Some (case find_field n fs of
                Some f \<Rightarrow> f\<lparr>f_type := f_type m, f_nullable := f_nullable m, f_default := f_default m\<rparr>
              | None \<Rightarrow> m)
      else find_field n fs)"
  by (auto simp: migration_step_def find_field_append find_field_update_found
      split: option.splits)

lemma find_fold_migration:
  assumes "distinct (map f_name ms)"
  shows "find_field n (fold migration_step ms fs) =
     (case find_field n ms of
        Some m \<Rightarrow>
          Some (case find_field n fs of
                  Some f \<Rightarrow> f\<lparr>f_type := f_type m, f_nullable := f_nullable m, f_default := f_default m\<rparr>
                | None \<Rightarrow> m)
      | None \<Rightarrow> find_field n fs)"
  using assms
proof (induction ms arbitrary: fs)
  case Nil
  then show ?case by simp
next
  case (Cons m ms)
  from Cons.prems have d: "distinct (map f_name ms)" and k: "f_name m \<notin> f_name ` set ms"
    by auto
  from k have none: "find_field (f_name m) ms = None"
    by (simp add: find_field_None_iff)
  show ?case
    using none by (auto simp: Cons.IH [OF d] find_migration_step split: option.splits)
qed

lemma find_default_step:
  "find_field n (default_step d fs) =
     (case find_field n fs of
        Some f \<Rightarrow> Some f
      | None \<Rightarrow> if n = fst d then Some (new_field n (TypeName (snd d)) False) else None)"
  by (auto simp: default_step_def find_field_append split: option.splits)

lemma default_step_extends: "\<exists>extra. default_step d fs = fs @ extra"
  by (auto simp: default_step_def split: option.splits)

lemma find_fold_default:
  "find_field n (fold default_step defaultFields fs) =
     (case find_field n fs of
        Some f \<Rightarrow> Some f
      | None \<Rightarrow> (case map_of defaultFields n of
                   Some t \<Rightarrow> Some (new_field n (TypeName t) False)
                 | None \<Rightarrow> None))"
  by (auto simp: defaultFields_def find_default_step split: option.splits)

lemma fold_default_extends: "\<exists>extra. fold default_step ds fs = fs @ extra"
proof (induction ds arbitrary: fs)
  case Nil
  then show ?case by simp
next
  case (Cons d ds)
  obtain e1 where e1: "default_step d fs = fs @ e1"
    using default_step_extends by blast
  obtain e2 where e2: "fold default_step ds (fs @ e1) = (fs @ e1) @ e2"
    using Cons.IH by blast
  show ?case by (simp add: e1 e2)
qed

lemma map_of_object_set: "map_of (object_set k v kvs) = (map_of kvs)(k \<mapsto> v)"
  by (induction kvs) (auto simp: fun_eq_iff)

lemma keys_object_set: "fst ` set (object_set k v kvs) = insert k (fst ` set kvs)"
proof -
  have "dom (map_of (object_set k v kvs)) = insert k (dom (map_of kvs))"
    by (simp add: map_of_object_set)
  then show ?thesis by (simp add: dom_map_of_conv_image_fst)
qed

lemma distinct_object_set:
  "distinct (map fst kvs) \<Longrightarrow> distinct (map fst (object_set k v kvs))"
proof (induction kvs)
  case Nil
  then show ?case by simp
next
  case (Cons kv kvs)
  obtain k' v' where kv: "kv = (k', v')" by (cases kv)
  show ?case
  proof (cases "k' = k")
    case True
    with Cons.prems show ?thesis by (simp add: kv)
  next
    case False
    have "k' \<notin> fst ` set (object_set k v kvs)"
      using Cons.prems False by (simp add: keys_object_set kv)
    with Cons show ?thesis by (simp add: kv False)
  qed
qed

lemma distinct_cast_assign:
  "distinct (map fst acc) \<Longrightarrow> distinct (map fst (cast_assign m acc))"
  by (simp add: cast_assign_def distinct_object_set)

lemma map_of_cast_assign:
  "map_of (cast_assign m acc) n =
     (if fst m \<noteq> ''__proto__'' \<and> n = fst m then Some (snd m) else map_of acc n)"
  by (simp add: cast_assign_def map_of_object_set)

lemma distinct_fold_cast_assign:
  "distinct (map fst acc) \<Longrightarrow> distinct (map fst (fold cast_assign ms acc))"
proof (induction ms arbitrary: acc)
  case Nil
  then show ?case by simp
next
  case (Cons m ms)
  have "distinct (map fst (cast_assign m acc))"
    using Cons.prems by (rule distinct_cast_assign)
  then have "distinct (map fst (fold cast_assign ms (cast_assign m acc)))"
    by (rule Cons.IH)
  then show ?case by simp
qed

lemma map_of_fold_cast_assign:
  "map_of (fold cast_assign ms acc) n =
     (case map_of (rev (filter (\<lambda>kv. fst kv \<noteq> ''__proto__'') ms)) n of
        Some v \<Rightarrow> Some v
      | None \<Rightarrow> map_of acc n)"
proof (induction ms arbitrary: acc)
  case Nil
  then show ?case by simp
next
  case (Cons m ms)
  have "map_of (fold cast_assign (m # ms) acc) n
        = map_of (fold cast_assign ms (cast_assign m acc)) n"
    by simp
  also have "\<dots> = (case map_of (rev (filter (\<lambda>kv. fst kv \<noteq> ''__proto__'') ms)) n of
        Some v \<Rightarrow> Some v
      | None \<Rightarrow> map_of (cast_assign m acc) n)"
    by (rule Cons.IH)
  also have "\<dots> = (case map_of (rev (filter (\<lambda>kv. fst kv \<noteq> ''__proto__'') (m # ms))) n of
        Some v \<Rightarrow> Some v
      | None \<Rightarrow> map_of acc n)"
    by (cases m) (simp add: map_of_cast_assign map_add_def split: option.splits)
  finally show ?case .
qed

lemma distinct_extractCasts: "distinct (map fst (extractCasts ms))"
  by (simp add: extractCasts_def distinct_fold_cast_assign)

lemma map_of_extractCasts:
  "map_of (extractCasts ms) n = map_of (rev (filter (\<lambda>kv. fst kv \<noteq> ''__proto__'') ms)) n"
  by (simp add: extractCasts_def map_of_fold_cast_assign split: option.splits)

lemma set_object_entries: "set (object_entries kvs) = set kvs"
  by (auto simp: object_entries_def)

lemma distinct_object_entries:
  assumes "distinct (map fst kvs)"
  shows "distinct (map fst (object_entries kvs))"
proof -
  from assms have d: "distinct kvs" and inj: "inj_on fst (set kvs)"
    by (simp_all add: distinct_map)
  have "distinct (object_entries kvs)"
    using d by (auto simp: object_entries_def)
  moreover have "inj_on fst (set (object_entries kvs))"
    using inj by (simp add: set_object_entries)
  ultimately show ?thesis by (simp add: distinct_map)
qed

lemma map_of_object_entries:
  assumes "distinct (map fst kvs)"
  shows "map_of (object_entries kvs) = map_of kvs"
  using assms distinct_object_entries [OF assms] set_object_entries [of kvs]
  by (simp add: map_of_inject_set)

lemma names_set_column:
  "f_name ` set (set_column field fs) = insert (f_name field) (f_name ` set fs)"
  by (induction fs) auto

lemma distinct_set_column:
  "distinct (map f_name fs) \<Longrightarrow> distinct (map f_name (set_column field fs))"
proof (induction fs)
  case Nil
  then show ?case by simp
next
  case (Cons f fs)
  show ?case
  proof (cases "f_name f = f_name field")
    case True
    with Cons.prems show ?thesis by simp
  next
    case False
    have "f_name f \<notin> f_name ` set (set_column field fs)"
      using Cons.prems False by (simp add: names_set_column)
    with Cons False show ?thesis by simp
  qed
qed

lemma distinct_push_if_absent:
  "distinct (map f_name fs) \<Longrightarrow> distinct (map f_name (push_if_absent field fs))"
  by (auto simp: push_if_absent_def find_field_None_iff)

lemma distinct_handleSpecial:
  "distinct (map f_name fs) \<Longrightarrow> distinct (map f_name (handleSpecialMigrationMethods method fs))"
  by (simp add: handleSpecialMigrationMethods_def distinct_push_if_absent)

lemma distinct_column_step:
  "distinct (map f_name fs) \<Longrightarrow> distinct (map f_name (column_step ct cn mo df fs))"
  by (simp add: column_step_def distinct_set_column distinct_handleSpecial)

lemma distinct_fold_first:
  "distinct (map f_name fs) \<Longrightarrow> distinct (map f_name (fold first_pattern_step ms fs))"
  by (induction ms arbitrary: fs) (simp_all add: first_pattern_step_def distinct_column_step)

lemma distinct_fold_second:
  "distinct (map f_name fs) \<Longrightarrow> distinct (map f_name (fold second_pattern_step ms fs))"
  by (induction ms arbitrary: fs) (simp_all add: second_pattern_step_def distinct_column_step)

lemma distinct_columns_parseMigrationFile:
  assumes "distinct_columns migs"
  shows "distinct_columns (parseMigrationFile file migs)"
proof (cases "snd file")
  case None
  with assms show ?thesis by (simp add: parseMigrationFile_def)
next
  case (Some c)
  show ?thesis
  proof (cases "migration_tableName c")
    case None
    with Some assms show ?thesis by (simp add: parseMigrationFile_def)
  next
    case (Some t)
    have start: "distinct (map f_name (case migs t of None \<Rightarrow> [] | Some fs \<Rightarrow> fs))"
      using assms by (auto simp: distinct_columns_def split: option.splits)
    have "distinct (map f_name (fold second_pattern_step (mc_calls c)
            (fold first_pattern_step (mc_columns c) (case migs t of None \<Rightarrow> [] | Some fs \<Rightarrow> fs))))"
      by (intro distinct_fold_second distinct_fold_first start)
    with assms \<open>snd file = Some c\<close> Some show ?thesis
      by (auto simp: parseMigrationFile_def distinct_columns_def Let_def)
  qed
qed

lemma distinct_columns_fold:
  "distinct_columns migs \<Longrightarrow> distinct_columns (fold parseMigrationFile files migs)"
  by (induction files arbitrary: migs) (simp_all add: distinct_columns_parseMigrationFile)

lemma distinct_columns_analyzeMigrations:
  "distinct_columns (migrations (analyzeMigrations dir st0))"
proof -
  have "distinct_columns Map.empty" by (simp add: distinct_columns_def)
  then show ?thesis
    by (cases dir) (simp_all add: analyzeMigrations_def distinct_columns_fold)
qed

lemma find_classFields:
  "find_field n (classFields c) =
     (case cast_entry c n of
        Some cast \<Rightarrow> Some (new_field n (castToType cast) False)
      | None \<Rightarrow> if n \<in> set (declared_names c)
                then Some (new_field n (TypeName ''string'') False) else None)"
proof -
  have f2: "find_field n (fieldsAfterHidden c) =
     (if n \<in> set (declared_names c) then Some (new_field n (TypeName ''string'') False) else None)"
    by (auto simp: fieldsAfterHidden_def fieldsAfterFillable_def declared_names_def
        find_fold_fillable find_fold_hidden split: option.splits)
  have upd: "\<And>t. new_field n (TypeName ''string'') False\<lparr>f_type := t\<rparr> = new_field n t False"
    by (simp add: new_field_def)
  show ?thesis
  proof (cases "mo_casts c")
    case None
    then show ?thesis
      using f2 by (simp add: classFields_def cast_entry_def)
  next
    case (Some ms)
    have d: "distinct (map fst (object_entries (extractCasts ms)))"
      by (simp add: distinct_object_entries distinct_extractCasts)
    have m: "map_of (object_entries (extractCasts ms)) n
             = map_of (rev (filter (\<lambda>kv. fst kv \<noteq> ''__proto__'') ms)) n"
      by (simp add: map_of_object_entries distinct_extractCasts map_of_extractCasts)
    have cf: "classFields c = fold cast_step (object_entries (extractCasts ms)) (fieldsAfterHidden c)"
      using Some by (simp add: classFields_def)
    show ?thesis
      unfolding cf find_fold_cast [OF d] m
      using Some by (auto simp: cast_entry_def f2 upd split: option.splits)
  qed
qed

lemma find_mergedFields:
  assumes "distinct_columns migs"
  shows "find_field n (mergedFields migs table c) =
     (case migration_column migs table n of
        Some m \<Rightarrow>
          Some (case find_field n (classFields c) of
                  Some f \<Rightarrow> f\<lparr>f_type := f_type m, f_nullable := f_nullable m, f_default := f_default m\<rparr>
                | None \<Rightarrow> m)
      | None \<Rightarrow> find_field n (classFields c))"
proof (cases "migs table")
  case None
  then show ?thesis by (simp add: mergedFields_def migration_column_def)
next
  case (Some ms)
  with assms have "distinct (map f_name ms)" by (simp add: distinct_columns_def)
  then show ?thesis
    using Some by (simp add: mergedFields_def migration_column_def find_fold_migration)
qed

lemma find_modelFields:
  assumes "distinct_columns migs"
  shows "find_field n (modelFields migs table c) = resolved_field migs table c n"
  by (simp add: modelFields_def find_fold_default find_mergedFields [OF assms] find_classFields
      resolved_field_def Let_def split: option.splits)

section \<open>Derived table names\<close>

lemma extractTableName_explicit: "extractTableName (Some t) modelName = t"
  by (simp add: extractTableName_def)

lemma extractTableName_sibling: "extractTableName None modelName = modelNameToTableName modelName"
  by (simp add: extractTableName_def modelNameToTableName_def)

lemma derived_table_upper_initial:
  "is_upper_AZ c \<Longrightarrow> extractTableName None (c # cs) = table_name_spec (c # cs)"
  by (simp add: extractTableName_def table_name_spec_def snake_underscores_def
      toLowerCase_def substring1_def lower_char_def Let_def)

lemma derived_table_BlogPost: "extractTableName None ''BlogPost'' = ''blog_posts''"
  by code_simp

text \<open>
  C10. For a model class without an explicit \<open>$table\<close> property the derived table name is
  the snake-cased class name with \<open>s\<close> appended. The source removes the first character,
  whatever it is: for the class name \<open>post\<close> it derives \<open>osts\<close>, where the specified
  derivation gives \<open>posts\<close>.
\<close>

theorem derived_table_lower_initial:
  "extractTableName None ''post'' = ''osts'' \<and> modelNameToTableName ''post'' = ''osts''
   \<and> table_name_spec ''post'' = ''posts''"
  by code_simp


section \<open>Field precedence and implicit fields\<close>

text \<open>
  C1. When several sources describe a field name, the field that \<open>parseModelFile\<close> stores
  under that name (the one \<open>find\<close> returns) follows the precedence migration over casts
  over fillable and hidden: \<^const>\<open>resolved_field\<close> states the precedence, and the model's
  field list resolves every name as it does. The migration columns are those of the last
  run of \<open>analyzeMigrations\<close>. The witness is the model with \<open>$fillable = ['title']\<close>, the
  cast \<open>'title' => 'integer'\<close> and the migration column \<open>title\<close>, string and nullable: the
  field is string and nullable.
\<close>

theorem field_precedence:
  assumes "mo_isModel c"
    and "st = analyzeMigrations dir st0"
  shows "\<exists>model. models (parseModelFile filePath modelName (Some c) st) modelName = Some model
          \<and> m_table model = extractTableName (mo_tableMatch c) modelName
          \<and> (\<forall>n. find_field n (m_fields model) = resolved_field (migrations st) (m_table model) c n)"
proof -
  have "distinct_columns (migrations st)"
    unfolding assms(2) by (rule distinct_columns_analyzeMigrations)
  then show ?thesis
    using assms(1) by (simp add: parseModelFile_def Let_def find_modelFields)
qed

theorem field_precedence_witness:
  "mo_isModel post_model
   \<and> (\<exists>model. models (parseModelFile ''app/Models/Post.php'' ''Post'' (Some post_model)
                  (analyzeMigrations (Some [create_posts]) empty_schema)) ''Post'' = Some model
        \<and> find_field ''title'' (m_fields model)
            = Some \<lparr>f_name = ''title'', f_type = TypeName ''string'', f_nullable = True,
                     f_default = None, f_comment = None\<rparr>)"
proof -
  have m: "mo_isModel post_model" by (simp add: post_model_def)
  obtain model where
    a: "models (parseModelFile ''app/Models/Post.php'' ''Post'' (Some post_model)
                  (analyzeMigrations (Some [create_posts]) empty_schema)) ''Post'' = Some model"
    and b: "m_table model = extractTableName (mo_tableMatch post_model) ''Post''"
    and c: "\<forall>n. find_field n (m_fields model)
            = resolved_field (migrations (analyzeMigrations (Some [create_posts]) empty_schema))
                (m_table model) post_model n"
    using field_precedence [OF m refl, of "''app/Models/Post.php''" "''Post''" "Some [create_posts]" empty_schema]
    by blast
  have "find_field ''title'' (m_fields model)
        = Some \<lparr>f_name = ''title'', f_type = TypeName ''string'', f_nullable = True,
                 f_default = None, f_comment = None\<rparr>"
  proof -
    have t: "extractTableName (mo_tableMatch post_model) ''Post'' = ''posts''"
      by code_simp
    have r: "resolved_field (migrations (analyzeMigrations (Some [create_posts]) empty_schema))
               ''posts'' post_model ''title''
             = Some \<lparr>f_name = ''title'', f_type = TypeName ''string'', f_nullable = True,
                      f_default = None, f_comment = None\<rparr>"
      by code_simp
    show ?thesis using c b by (simp add: t r)
  qed
  with m a show ?thesis by blast
qed

text \<open>
  C9. Every model that \<open>parseModelFile\<close> stores has a field \<open>id\<close> of type integer and
  fields \<open>created_at\<close> and \<open>updated_at\<close> of type datetime, unless the field list built
  from the fillable, hidden and casts properties and the migration columns
  (\<^const>\<open>mergedFields\<close>) already has a field of that name: that list is kept as it is, and
  the missing implicit fields are appended.
\<close>

theorem implicit_fields_guaranteed:
  assumes "mo_isModel c"
    and "(n, t) \<in> {(''id'', ''integer''), (''created_at'', ''datetime''), (''updated_at'', ''datetime'')}"
  shows "\<exists>model. models (parseModelFile filePath modelName (Some c) st) modelName = Some model
      \<and> (\<exists>extra. m_fields model = mergedFields (migrations st) (m_table model) c @ extra)
      \<and> find_field n (m_fields model) =
          (case find_field n (mergedFields (migrations st) (m_table model) c) of
             Some f \<Rightarrow> Some f
           | None \<Rightarrow> Some \<lparr>f_name = n, f_type = TypeName t, f_nullable = False,
                            f_default = None, f_comment = None\<rparr>)"
proof -
  have t: "map_of defaultFields n = Some t"
    using assms(2) by (auto simp: defaultFields_def)
  show ?thesis
    using assms(1) fold_default_extends [of defaultFields]
    by (simp add: parseModelFile_def Let_def modelFields_def find_fold_default t new_field_def
        split: option.splits)
qed


theorem implicit_fields_guaranteed_witness:
  "mo_isModel post_model
   \<and> (\<exists>model. models (parseModelFile ''app/Models/Post.php'' ''Post'' (Some post_model)
                  (analyzeMigrations (Some [create_posts]) empty_schema)) ''Post'' = Some model
        \<and> find_field ''id'' (m_fields model)
            = Some \<lparr>f_name = ''id'', f_type = TypeName ''integer'', f_nullable = False,
                     f_default = None, f_comment = None\<rparr>
        \<and> find_field ''created_at'' (m_fields model)
            = Some \<lparr>f_name = ''created_at'', f_type = TypeName ''timestamp'', f_nullable = True,
                     f_default = None, f_comment = None\<rparr>)"
proof -
  let ?st = "analyzeMigrations (Some [create_posts]) empty_schema"
  let ?st' = "parseModelFile ''app/Models/Post.php'' ''Post'' (Some post_model) ?st"
  have m: "mo_isModel post_model" by (simp add: post_model_def)
  have i: "(''id'', ''integer'') \<in> {(''id'', ''integer''), (''created_at'', ''datetime''), (''updated_at'', ''datetime'')}"
    by simp
  have j: "(''created_at'', ''datetime'') \<in> {(''id'', ''integer''), (''created_at'', ''datetime''), (''updated_at'', ''datetime'')}"
    by simp
  have st: "models ?st' ''Post''
      = Some \<lparr>m_name = ''Post'', m_table = ''posts'',
           m_fields = modelFields (migrations ?st) ''posts'' post_model,
           m_relationships = [], m_filePath = ''app/Models/Post.php''\<rparr>"
  proof -
    have t: "extractTableName (mo_tableMatch post_model) ''Post'' = ''posts''"
      by code_simp
    show ?thesis using m by (simp add: parseModelFile_def Let_def t) (simp add: post_model_def)
  qed
  have f1: "find_field ''id'' (mergedFields (migrations ?st) ''posts'' post_model) = None"
    by code_simp
  have f2: "find_field ''created_at'' (mergedFields (migrations ?st) ''posts'' post_model)
      = Some \<lparr>f_name = ''created_at'', f_type = TypeName ''timestamp'', f_nullable = True,
               f_default = None, f_comment = None\<rparr>"
    by code_simp
  from implicit_fields_guaranteed [OF m i, of "''app/Models/Post.php''" "''Post''" ?st]
  have a: "find_field ''id'' (modelFields (migrations ?st) ''posts'' post_model)
      = Some \<lparr>f_name = ''id'', f_type = TypeName ''integer'', f_nullable = False,
               f_default = None, f_comment = None\<rparr>"
    by (simp add: st f1)
  from implicit_fields_guaranteed [OF m j, of "''app/Models/Post.php''" "''Post''" ?st]
  have b: "find_field ''created_at'' (modelFields (migrations ?st) ''posts'' post_model)
      = Some \<lparr>f_name = ''created_at'', f_type = TypeName ''timestamp'', f_nullable = True,
               f_default = None, f_comment = None\<rparr>"
    by (simp add: st f2)
  show ?thesis using m st a b by simp
qed


section \<open>Later migrations\<close>

lemma find_set_column:
  "find_field n (set_column field fs) = (if n = f_name field then Some field else find_field n fs)"
  by (induction fs) auto

lemma find_push_if_absent:
  "find_field n fs = Some f \<Longrightarrow> find_field n (push_if_absent g fs) = Some f"
  by (simp add: push_if_absent_def find_field_append)

lemma find_handleSpecial:
  "find_field n fs = Some f \<Longrightarrow> find_field n (handleSpecialMigrationMethods method fs) = Some f"
  by (simp add: handleSpecialMigrationMethods_def find_push_if_absent)

lemma f_name_column_field [simp]: "f_name (column_field ct cn mo df) = cn"
  by (simp add: column_field_def)

lemma call_defs_Cons:
  "call_defs col ((ct, cn, mo, df) # xs) =
     (if truthy cn \<and> cn = col then [column_field ct cn mo df] else []) @ call_defs col xs"
  by (auto simp: call_defs_def)

lemma call_defs_Nil [simp]: "call_defs col [] = []"
  by (simp add: call_defs_def)

lemma find_call_step:
  "find_field col (call_step (ct, cn, mo, df) fs) =
     (if truthy cn then (if cn = col then Some (column_field ct cn mo df) else find_field col fs)
      else find_field col (handleSpecialMigrationMethods ct fs))"
  by (auto simp: call_step_def column_step_def find_set_column)

lemma fold_call_keeps:
  "call_defs col xs = [] \<Longrightarrow> find_field col fs = Some f
   \<Longrightarrow> find_field col (fold call_step xs fs) = Some f"
proof (induction xs arbitrary: fs)
  case Nil
  then show ?case by simp
next
  case (Cons x xs)
  obtain ct cn mo df where x: "x = (ct, cn, mo, df)" by (cases x)
  from Cons.prems(1) have no: "\<not> (truthy cn \<and> cn = col)" and rest: "call_defs col xs = []"
    by (auto simp: x call_defs_Cons split: if_splits)
  have "find_field col (call_step x fs) = Some f"
    using no Cons.prems(2) by (auto simp: x find_call_step find_handleSpecial)
  then show ?case using rest Cons.IH by simp
qed

lemma fold_call_last:
  "call_defs col xs \<noteq> [] \<Longrightarrow> find_field col (fold call_step xs fs) = Some (last (call_defs col xs))"
proof (induction xs arbitrary: fs)
  case Nil
  then show ?case by simp
next
  case (Cons x xs)
  obtain ct cn mo df where x: "x = (ct, cn, mo, df)" by (cases x)
  show ?case
  proof (cases "call_defs col xs = []")
    case False
    then show ?thesis using Cons.IH by (simp add: x call_defs_Cons)
  next
    case True
    with Cons.prems have here: "truthy cn \<and> cn = col"
      by (auto simp: x call_defs_Cons split: if_splits)
    then have "find_field col (call_step x fs) = Some (column_field ct cn mo df)"
      by (auto simp: x find_call_step)
    then have "find_field col (fold call_step xs (call_step x fs)) = Some (column_field ct cn mo df)"
      using True by (rule fold_call_keeps [rotated])
    then show ?thesis using True here by (auto simp: x call_defs_Cons)
  qed
qed

lemma fold_first_calls:
  "fold first_pattern_step ms fs
   = fold call_step (map (\<lambda>m. (cm_columnType m, cm_columnName m, Some (cm_modifiers m), cm_default m)) ms) fs"
  by (induction ms arbitrary: fs) (simp_all add: first_pattern_step_def call_step_def)

lemma fold_second_calls:
  "fold second_pattern_step ms fs
   = fold call_step (map (\<lambda>m. (cl_method m, cl_chain m, None, None)) ms) fs"
  by (induction ms arbitrary: fs) (simp_all add: second_pattern_step_def call_step_def)

lemma file_fold_calls:
  "fold second_pattern_step (mc_calls c) (fold first_pattern_step (mc_columns c) fs)
   = fold call_step (file_calls c) fs"
  by (simp add: file_calls_def fold_first_calls fold_second_calls)

lemma file_definitions_calls:
  "snd file = Some c \<Longrightarrow>
   filter (\<lambda>f. f_name f = col) (file_definitions file) = call_defs col (file_calls c)"
  by (simp add: file_definitions_def call_defs_def file_calls_def filter_map comp_def)

lemma parseMigrationFile_other:
  "file_table file \<noteq> Some t \<Longrightarrow> parseMigrationFile file migs t = migs t"
  by (auto simp: parseMigrationFile_def file_table_def Let_def split: option.splits)

lemma parseMigrationFile_table:
  assumes "file_table file = Some t"
  obtains c where "snd file = Some c"
    and "parseMigrationFile file migs t
         = Some (fold call_step (file_calls c) (case migs t of None \<Rightarrow> [] | Some fs \<Rightarrow> fs))"
proof -
  from assms obtain c where c: "snd file = Some c" and t: "migration_tableName c = Some t" "truthy t"
    by (auto simp: file_table_def split: option.splits if_splits)
  have "parseMigrationFile file migs t
         = Some (fold call_step (file_calls c) (case migs t of None \<Rightarrow> [] | Some fs \<Rightarrow> fs))"
    using c t by (simp add: parseMigrationFile_def Let_def file_fold_calls)
  with c show ?thesis by (rule that)
qed

lemma table_definitions_Nil [simp]: "table_definitions t col [] = []"
  by (simp add: table_definitions_def)

lemma table_definitions_Cons:
  "table_definitions t col (file # files) =
     (if file_table file = Some t then filter (\<lambda>f. f_name f = col) (file_definitions file) else [])
     @ table_definitions t col files"
  by (simp add: table_definitions_def)

lemma table_definitions_append:
  "table_definitions t col (xs @ ys) = table_definitions t col xs @ table_definitions t col ys"
  by (simp add: table_definitions_def)

lemma fold_files_keeps:
  "table_definitions t col files = [] \<Longrightarrow> migs t = Some fs \<Longrightarrow> find_field col fs = Some f
   \<Longrightarrow> \<exists>fs'. fold parseMigrationFile files migs t = Some fs' \<and> find_field col fs' = Some f"
proof (induction files arbitrary: migs fs)
  case Nil
  then show ?case by simp
next
  case (Cons fl files)
  from Cons.prems(1) have rest: "table_definitions t col files = []"
    by (simp add: table_definitions_Cons)
  have "\<exists>fs1. parseMigrationFile fl migs t = Some fs1 \<and> find_field col fs1 = Some f"
  proof (cases "file_table fl = Some t")
    case False
    then show ?thesis using Cons.prems by (simp add: parseMigrationFile_other)
  next
    case True
    then obtain c where c: "snd fl = Some c"
      and p: "parseMigrationFile fl migs t
         = Some (fold call_step (file_calls c) (case migs t of None \<Rightarrow> [] | Some fs \<Rightarrow> fs))"
      by (rule parseMigrationFile_table)
    have "call_defs col (file_calls c) = []"
      using Cons.prems(1) True c by (simp add: table_definitions_Cons file_definitions_calls)
    then have "find_field col (fold call_step (file_calls c) fs) = Some f"
      using Cons.prems(3) by (rule fold_call_keeps)
    then show ?thesis using p Cons.prems(2) by simp
  qed
  then obtain fs1 where "parseMigrationFile fl migs t = Some fs1" "find_field col fs1 = Some f"
    by blast
  then show ?case using Cons.IH [OF rest] by simp
qed

lemma fold_files_last:
  "table_definitions t col files \<noteq> []
   \<Longrightarrow> \<exists>fs'. fold parseMigrationFile files migs t = Some fs'
           \<and> find_field col fs' = Some (last (table_definitions t col files))"
proof (induction files arbitrary: migs)
  case Nil
  then show ?case by simp
next
  case (Cons fl files)
  show ?case
  proof (cases "table_definitions t col files = []")
    case False
    then show ?thesis using Cons.IH by (simp add: table_definitions_Cons)
  next
    case True
    with Cons.prems have ft: "file_table fl = Some t"
      and ne: "filter (\<lambda>f. f_name f = col) (file_definitions fl) \<noteq> []"
      by (auto simp: table_definitions_Cons split: if_splits)
    from ft obtain c where c: "snd fl = Some c"
      and p: "parseMigrationFile fl migs t
         = Some (fold call_step (file_calls c) (case migs t of None \<Rightarrow> [] | Some fs \<Rightarrow> fs))"
      by (rule parseMigrationFile_table)
    have ne': "call_defs col (file_calls c) \<noteq> []"
      using ne c by (simp add: file_definitions_calls)
    have "find_field col (fold call_step (file_calls c) (case migs t of None \<Rightarrow> [] | Some fs \<Rightarrow> fs))
          = Some (last (call_defs col (file_calls c)))"
      using ne' by (rule fold_call_last)
    with p True have "\<exists>fs'. fold parseMigrationFile files (parseMigrationFile fl migs) t = Some fs'
        \<and> find_field col fs' = Some (last (call_defs col (file_calls c)))"
      by (intro fold_files_keeps) simp_all
    then show ?thesis
      using True ft c by (simp add: table_definitions_Cons file_definitions_calls)
  qed
qed

lemma table_definitions_empty:
  "(\<And>y. y \<in> set ys \<Longrightarrow> \<not> (file_table y = Some t \<and> list_ex (\<lambda>f. f_name f = col) (file_definitions y)))
   \<Longrightarrow> table_definitions t col ys = []"
proof (induction ys)
  case Nil
  then show ?case by simp
next
  case (Cons y ys)
  have "\<not> (file_table y = Some t \<and> list_ex (\<lambda>f. f_name f = col) (file_definitions y))"
    by (rule Cons.prems) simp
  then have "(if file_table y = Some t then filter (\<lambda>f. f_name f = col) (file_definitions y) else []) = []"
    by (auto simp: list_ex_iff filter_empty_conv)
  moreover have "table_definitions t col ys = []"
    by (rule Cons.IH, rule Cons.prems) simp
  ultimately show ?case by (simp add: table_definitions_Cons)
qed

lemma last_sorted_definitions:
  assumes d: "distinct (map fst files)"
    and mem: "mf \<in> set files"
    and defs: "defines_column mf table column"
    and latest: "\<forall>other \<in> set files. defines_column other table column \<longrightarrow> fst other \<le> fst mf"
  shows "table_definitions table column (migrationFiles files) \<noteq> []
       \<and> last (table_definitions table column (migrationFiles files))
           = last (filter (\<lambda>f. f_name f = column) (file_definitions mf))"
proof -
  let ?L = "migrationFiles files"
  from defs have php: "endsWith (fst mf) ''.php''" and ft: "file_table mf = Some table"
    and ex: "list_ex (\<lambda>f. f_name f = column) (file_definitions mf)"
    by (simp_all add: defines_column_def)
  from ex have ne: "filter (\<lambda>f. f_name f = column) (file_definitions mf) \<noteq> []"
    by (auto simp: list_ex_iff filter_empty_conv)
  have setL: "set ?L = {x \<in> set files. endsWith (fst x) ''.php''}"
    by (auto simp: migrationFiles_def)
  from d have dfiles: "distinct files" and inj: "inj_on fst (set files)"
    by (simp_all add: distinct_map)
  have dL: "distinct ?L"
    using dfiles by (simp add: migrationFiles_def)
  have sL: "sorted (map fst ?L)"
    by (simp add: migrationFiles_def)
  from mem php have "mf \<in> set ?L" by (simp add: setL)
  then obtain xs ys where L: "?L = xs @ mf # ys"
    by (auto dest: split_list)
  from dL L have notin: "mf \<notin> set ys" by simp
  from sL L have after: "\<forall>y \<in> set ys. fst mf \<le> fst y"
    by (simp add: sorted_append)
  have sub: "set ys \<subseteq> set ?L" using L by auto
  have "table_definitions table column ys = []"
  proof (rule table_definitions_empty)
    fix y assume y: "y \<in> set ys"
    show "\<not> (file_table y = Some table \<and> list_ex (\<lambda>f. f_name f = column) (file_definitions y))"
    proof
      assume a: "file_table y = Some table \<and> list_ex (\<lambda>f. f_name f = column) (file_definitions y)"
      from y sub have yf: "y \<in> set files" and yphp: "endsWith (fst y) ''.php''"
        by (auto simp: setL)
      from a yphp have "defines_column y table column" by (simp add: defines_column_def)
      with latest yf have "fst y \<le> fst mf" by blast
      moreover from after y have "fst mf \<le> fst y" by blast
      ultimately have "fst y = fst mf" by simp
      with inj yf mem have "y = mf" by (auto dest: inj_onD)
      with y notin show False by simp
    qed
  qed
  then have "table_definitions table column ?L
       = table_definitions table column xs @ filter (\<lambda>f. f_name f = column) (file_definitions mf)"
    by (simp add: L table_definitions_append table_definitions_Cons ft)
  with ne show ?thesis by simp
qed

text \<open>
  C5, as amended. Migration files are processed in the order of their file names. When a
  migration of a table defines a column by a regular column call, and no migration of
  that table with a regular definition of the column sorts after it, the column's entry
  in the migration list of the table is the last such definition of that file, and the
  field of that name in every model of the table has its type, nullability and default.
  A pseudo-column call (\<open>timestamps\<close>, \<open>softDeletes\<close>, \<open>rememberToken\<close>) is not a regular
  definition: it adds a column only where none of that name exists.
\<close>

theorem later_definition_wins:
  assumes "distinct (map fst files)"
    and "mf \<in> set files"
    and "defines_column mf table column"
    and "\<forall>other \<in> set files. defines_column other table column \<longrightarrow> fst other \<le> fst mf"
  shows "\<exists>flds d. migrations (analyzeMigrations (Some files) st) table = Some flds
       \<and> d = last (filter (\<lambda>f. f_name f = column) (file_definitions mf))
       \<and> find_field column flds = Some d
       \<and> (\<forall>c. \<exists>f. find_field column
                      (modelFields (migrations (analyzeMigrations (Some files) st)) table c) = Some f
                  \<and> f_type f = f_type d \<and> f_nullable f = f_nullable d
                  \<and> f_default f = f_default d)"
proof -
  let ?migs = "migrations (analyzeMigrations (Some files) st)"
  let ?d = "last (filter (\<lambda>f. f_name f = column) (file_definitions mf))"
  from last_sorted_definitions [OF assms]
  have ne: "table_definitions table column (migrationFiles files) \<noteq> []"
    and l: "last (table_definitions table column (migrationFiles files)) = ?d"
    by simp_all
  from fold_files_last [OF ne, of Map.empty] obtain flds
    where flds: "?migs table = Some flds" and d: "find_field column flds = Some ?d"
    by (auto simp: analyzeMigrations_def l)
  have col: "migration_column ?migs table column = Some ?d"
    using flds d by (simp add: migration_column_def)
  have "\<exists>f. find_field column (modelFields ?migs table c) = Some f
          \<and> f_type f = f_type ?d \<and> f_nullable f = f_nullable ?d \<and> f_default f = f_default ?d" for c
    by (simp add: find_modelFields [OF distinct_columns_analyzeMigrations] resolved_field_def
        col Let_def split: option.splits)
  with flds d show ?thesis by blast
qed

theorem later_definition_wins_witness:
  "distinct (map fst [alter_orders, create_orders])
   \<and> defines_column create_orders ''orders'' ''status''
   \<and> defines_column alter_orders ''orders'' ''status''
   \<and> fst create_orders \<le> fst alter_orders
   \<and> (\<exists>flds. migrations (analyzeMigrations (Some [alter_orders, create_orders]) empty_schema) ''orders''
              = Some flds
        \<and> find_field ''status'' flds
            = Some \<lparr>f_name = ''status'', f_type = TypeName ''string'', f_nullable = True,
                     f_default = None, f_comment = None\<rparr>)
   \<and> (\<exists>f. find_field ''status''
              (modelFields (migrations (analyzeMigrations (Some [alter_orders, create_orders]) empty_schema))
                 ''orders'' order_model) = Some f
        \<and> f_nullable f)"
proof -
  have a: "distinct (map fst [alter_orders, create_orders])" by code_simp
  have b: "alter_orders \<in> set [alter_orders, create_orders]" by simp
  have c: "defines_column alter_orders ''orders'' ''status''" by code_simp
  have c': "defines_column create_orders ''orders'' ''status''" by code_simp
  have le: "fst create_orders \<le> fst alter_orders" by code_simp
  have d: "\<forall>other \<in> set [alter_orders, create_orders].
             defines_column other ''orders'' ''status'' \<longrightarrow> fst other \<le> fst alter_orders"
    using le by simp
  have e: "last (filter (\<lambda>f. f_name f = ''status'') (file_definitions alter_orders))
     = \<lparr>f_name = ''status'', f_type = TypeName ''string'', f_nullable = True,
        f_default = None, f_comment = None\<rparr>"
    by code_simp
  let ?migs = "migrations (analyzeMigrations (Some [alter_orders, create_orders]) empty_schema)"
  from later_definition_wins [OF a b c d, of empty_schema] obtain flds dd where
    f: "?migs ''orders'' = Some flds"
    and dd: "dd = last (filter (\<lambda>f. f_name f = ''status'') (file_definitions alter_orders))"
    and g: "find_field ''status'' flds = Some dd"
    and h: "\<forall>c. \<exists>f. find_field ''status'' (modelFields ?migs ''orders'' c) = Some f
           \<and> f_type f = f_type dd \<and> f_nullable f = f_nullable dd \<and> f_default f = f_default dd"
    by blast
  from h obtain fo where
    fo: "find_field ''status'' (modelFields ?migs ''orders'' order_model) = Some fo"
    and n: "f_nullable fo = f_nullable dd"
    by blast
  have n': "f_nullable fo" using n dd e by simp
  have g': "find_field ''status'' flds
          = Some \<lparr>f_name = ''status'', f_type = TypeName ''string'', f_nullable = True,
                   f_default = None, f_comment = None\<rparr>"
    using g dd e by simp
  show ?thesis using a c c' le f g' fo n' by simp
qed

text \<open>
  C5, as stated, fails for a pseudo-column: the earlier migration defines \<open>created_at\<close> as
  a string column, the later one calls \<open>$table->timestamps()\<close>, which on its own defines
  \<open>created_at\<close> as a nullable timestamp; the earlier definition stays.
\<close>

theorem pseudo_column_keeps_earlier:
  "map fst (migrationFiles [created_at_column, add_timestamps])
     = [fst created_at_column, fst add_timestamps]
   \<and> parseMigrationFile add_timestamps Map.empty ''orders''
       = Some [new_field ''created_at'' (TypeName ''timestamp'') True,
               new_field ''updated_at'' (TypeName ''timestamp'') True]
   \<and> migrations (analyzeMigrations (Some [created_at_column, add_timestamps]) empty_schema) ''orders''
       = Some [new_field ''created_at'' (TypeName ''string'') False,
               new_field ''updated_at'' (TypeName ''timestamp'') True]"
  by code_simp


section \<open>Routes of one line\<close>

lemma map_of_map_push:
  "map_of (map_push k v m) k' =
     (if k' = k then Some ((case map_of m k of None \<Rightarrow> [] | Some xs \<Rightarrow> xs) @ [v]) else map_of m k')"
proof (cases "map_of m k")
  case None
  then show ?thesis by (auto simp: map_push_def map_add_def split: option.splits)
next
  case (Some xs)
  have "map_of (map (\<lambda>kv. if fst kv = k then (k, snd kv @ [v]) else kv) m) k'
        = (if k' = k then map_option (\<lambda>xs. xs @ [v]) (map_of m k) else map_of m k')"
    by (induction m) auto
  with Some show ?thesis by (simp add: map_push_def)
qed

lemma file_routes_addRoute:
  "file_routes (addRoute r m) fp =
     (if rt_filePath r = fp then file_routes m fp @ [r] else file_routes m fp)"
  by (simp add: file_routes_def addRoute_def map_of_map_push)

lemma file_routes_fold_addRoute:
  "list_all (\<lambda>r. rt_filePath r = fp) new
   \<Longrightarrow> file_routes (fold addRoute new m) fp = file_routes m fp @ new"
  by (induction new arbitrary: m) (simp_all add: file_routes_addRoute)

lemma lineRoutes_filePath:
  "list_all (\<lambda>r. rt_filePath r = fp) (lineRoutes line n fp mw prefix)"
  by (simp add: lineRoutes_def controllerAtRoute_def controllerClassRoute_def resourceRoute_def
      closureRoute_def split: option.splits)

lemma file_routes_nameLastRoute:
  "file_routes (nameLastRoute nm n fp m) fp = file_routes m fp
   \<or> (\<exists>name. file_routes m fp \<noteq> [] \<and> file_routes (nameLastRoute nm n fp m) fp = rename_last name (file_routes m fp))"
proof (cases nm)
  case None
  then show ?thesis by (simp add: nameLastRoute_def)
next
  case (Some name)
  show ?thesis
  proof (cases "map_of m fp")
    case None
    with Some show ?thesis by (simp add: nameLastRoute_def)
  next
    case (Some rs)
    have "map_of (map (\<lambda>kv. if fst kv = fp then (fp, x) else kv) m) fp = Some x" for x
      using Some by (induction m) (auto split: if_splits)
    then show ?thesis
      using Some \<open>nm = Some name\<close>
      by (auto simp: nameLastRoute_def file_routes_def rename_last_def)
  qed
qed

lemma file_routes_parseRouteLine:
  "\<exists>added. file_routes (parseRouteLine line n fp mw prefix m) fp = file_routes m fp @ added
     \<and> (added = lineRoutes line n fp mw prefix
        \<or> (\<exists>name. added = rename_last name (lineRoutes line n fp mw prefix)))
   \<or> lineRoutes line n fp mw prefix = []"
proof (cases "lineRoutes line n fp mw prefix = []")
  case True
  then show ?thesis by simp
next
  case False
  let ?new = "lineRoutes line n fp mw prefix"
  let ?m1 = "fold addRoute ?new m"
  have m1: "file_routes ?m1 fp = file_routes m fp @ ?new"
    by (rule file_routes_fold_addRoute) (rule lineRoutes_filePath)
  have rl: "rename_last name (file_routes m fp @ ?new) = file_routes m fp @ rename_last name ?new" for name
    using False by (simp add: rename_last_def butlast_append)
  from file_routes_nameLastRoute [of "ln_name line" n fp ?m1]
  show ?thesis
    by (auto simp: parseRouteLine_def m1 rl)
qed

lemma verb_not_five: "set [verb_upper v] \<noteq> {''GET'', ''POST'', ''PUT'', ''PATCH'', ''DELETE''}"
  by (cases v) auto

lemma filter_five_cong:
  "map rt_method ys = map rt_method xs \<Longrightarrow> map rt_uri ys = map rt_uri xs
   \<Longrightarrow> map (\<lambda>r. (rt_method r, rt_uri r)) (filter five_methods ys)
       = map (\<lambda>r. (rt_method r, rt_uri r)) (filter five_methods xs)"
proof (induction xs arbitrary: ys)
  case Nil
  then show ?case by simp
next
  case (Cons x xs)
  then obtain y ys' where ys: "ys = y # ys'" by (cases ys) auto
  with Cons.prems have "rt_method y = rt_method x" "rt_uri y = rt_uri x"
    "map rt_method ys' = map rt_method xs" "map rt_uri ys' = map rt_uri xs"
    by simp_all
  then show ?case using Cons.IH [of ys'] by (simp add: ys five_methods_def)
qed

lemma rename_last_maps:
  "xs \<noteq> [] \<Longrightarrow> map rt_method (rename_last name xs) = map rt_method xs
                \<and> map rt_uri (rename_last name xs) = map rt_uri xs
                \<and> length (rename_last name xs) = length xs"
proof (induction xs rule: rev_induct)
  case Nil
  then show ?case by simp
next
  case (snoc x xs)
  show ?case by (simp add: rename_last_def)
qed

lemma five_methods_verb [simp]:
  "\<not> five_methods \<lparr>rt_method = [verb_upper v], rt_uri = u, rt_name = a, rt_action = b,
      rt_controller = c, rt_controllerMethod = d, rt_middleware = e, rt_filePath = f,
      rt_line = g, rt_column = h\<rparr>"
  using verb_not_five [of v] by (simp add: five_methods_def)

lemma filter_five_controllerAt:
  "filter five_methods (controllerAtRoute line n fp mw prefix) = []"
  by (simp add: controllerAtRoute_def split: option.splits)

lemma filter_five_controllerClass:
  "filter five_methods (controllerClassRoute line n fp mw prefix) = []"
  by (simp add: controllerClassRoute_def split: option.splits)

lemma filter_five_closure:
  "filter five_methods (closureRoute line n fp mw prefix) = []"
  by (simp add: closureRoute_def split: option.splits)

lemma filter_five_lineRoutes:
  assumes "ln_resource line = Some (resourceType, uri, controller)"
  shows "\<exists>r. filter five_methods (lineRoutes line n fp mw prefix) = [r]
           \<and> rt_method r = [''GET'', ''POST'', ''PUT'', ''PATCH'', ''DELETE'']
           \<and> rt_uri r = fullUri prefix uri @ ''/{id?}''"
  using assms
  by (simp add: lineRoutes_def filter_five_controllerAt filter_five_controllerClass
      filter_five_closure resourceRoute_def resourceMethods_def five_methods_def)

text \<open>
  C2. A line on which the resource pattern matches (\<open>Route::resource\<close> or
  \<open>Route::apiResource\<close> with a \<open>Controller::class\<close> argument) adds exactly one route whose
  method set is GET, POST, PUT, PATCH, DELETE; its URI is the prefix-merged resource URI
  followed by \<open>/{id?}\<close>. When no other route pattern matches on the line, it is the only
  route the line adds.
\<close>

theorem resource_route:
  assumes "ln_resource line = Some (resourceType, uri, controller)"
  shows "\<exists>r. filter five_methods
              (drop (length (file_routes m fp))
                 (file_routes (parseRouteLine line n fp mw prefix m) fp)) = [r]
           \<and> rt_method r = [''GET'', ''POST'', ''PUT'', ''PATCH'', ''DELETE'']
           \<and> rt_uri r = fullUri prefix uri @ ''/{id?}''
           \<and> (ln_controllerAt line = None \<and> ln_controllerClass line = None \<and> ln_closure line = None
                \<longrightarrow> drop (length (file_routes m fp))
                      (file_routes (parseRouteLine line n fp mw prefix m) fp) = [r])"
proof -
  let ?new = "lineRoutes line n fp mw prefix"
  define added where
    "added = drop (length (file_routes m fp)) (file_routes (parseRouteLine line n fp mw prefix m) fp)"
  from filter_five_lineRoutes [OF assms] obtain r0 where
    r0: "filter five_methods ?new = [r0]"
    and m0: "rt_method r0 = [''GET'', ''POST'', ''PUT'', ''PATCH'', ''DELETE'']"
    and u0: "rt_uri r0 = fullUri prefix uri @ ''/{id?}''"
    by blast
  from r0 have ne: "?new \<noteq> []" by auto
  from file_routes_parseRouteLine [of line n fp mw prefix m] ne
  have "added = ?new \<or> (\<exists>name. added = rename_last name ?new)"
    by (auto simp: added_def)
  then have maps: "map rt_method added = map rt_method ?new \<and> map rt_uri added = map rt_uri ?new
      \<and> length added = length ?new"
    using rename_last_maps [OF ne] by auto
  then have "map (\<lambda>r. (rt_method r, rt_uri r)) (filter five_methods added)
       = map (\<lambda>r. (rt_method r, rt_uri r)) (filter five_methods ?new)"
    by (intro filter_five_cong) simp_all
  then have "map (\<lambda>r. (rt_method r, rt_uri r)) (filter five_methods added) = [(rt_method r0, rt_uri r0)]"
    by (simp add: r0)
  then obtain r where r: "filter five_methods added = [r]"
    and mr: "rt_method r = rt_method r0" and ur: "rt_uri r = rt_uri r0"
    by (auto simp: map_eq_Cons_conv)
  have only: "added = [r]"
    if "ln_controllerAt line = None \<and> ln_controllerClass line = None \<and> ln_closure line = None"
  proof -
    from that assms have "length ?new = 1"
      by (simp add: lineRoutes_def controllerAtRoute_def controllerClassRoute_def resourceRoute_def
          closureRoute_def)
    with maps have "length added = 1" by simp
    then obtain x where x: "added = [x]" by (auto simp: length_Suc_conv)
    with r show ?thesis by (auto split: if_splits)
  qed
  from r mr ur m0 u0 only show ?thesis unfolding added_def by auto
qed

theorem resource_route_witness:
  "ln_resource photos_line = Some (Resource, ''photos'', ''PhotoController'')
   \<and> (\<exists>r. drop (length (file_routes [] ''routes/web.php''))
              (file_routes (parseRouteLine photos_line 1 ''routes/web.php'' [] ''api'' [])
                 ''routes/web.php'') = [r]
          \<and> set (rt_method r) = {''GET'', ''POST'', ''PUT'', ''PATCH'', ''DELETE''}
          \<and> rt_uri r = ''api/photos/{id?}'')"
proof -
  have a: "ln_resource photos_line = Some (Resource, ''photos'', ''PhotoController'')"
    by (simp add: photos_line_def)
  have b: "ln_controllerAt photos_line = None \<and> ln_controllerClass photos_line = None
           \<and> ln_closure photos_line = None"
    by (simp add: photos_line_def)
  have u: "fullUri ''api'' ''photos'' @ ''/{id?}'' = ''api/photos/{id?}''"
    by code_simp
  from resource_route [OF a, of "[]" "''routes/web.php''" 1 "[]" "''api''"] b obtain r where
    "drop (length (file_routes [] ''routes/web.php''))
       (file_routes (parseRouteLine photos_line 1 ''routes/web.php'' [] ''api'' [])
          ''routes/web.php'') = [r]"
    and "rt_method r = [''GET'', ''POST'', ''PUT'', ''PATCH'', ''DELETE'']"
    and "rt_uri r = fullUri ''api'' ''photos'' @ ''/{id?}''"
    by blast
  then show ?thesis using a u by auto
qed


section \<open>Group prefixes\<close>

lemma currentPrefix_enterGroup: "currentPrefix (enterGroup line s) = currentPrefix s"
  by (simp add: enterGroup_def)

lemma currentPrefix_leaveGroup:
  "currentPrefix s = [] \<Longrightarrow> currentPrefix (leaveGroup line s) = []"
  by (simp add: leaveGroup_def)

lemma currentPrefix_line_step:
  "currentPrefix s = [] \<Longrightarrow> currentPrefix (line_step filePath numbered s) = []"
  by (simp add: line_step_def Let_def currentPrefix_enterGroup currentPrefix_leaveGroup)

lemma currentPrefix_fold:
  "currentPrefix s = [] \<Longrightarrow> currentPrefix (fold (line_step filePath) numbered s) = []"
  by (induction numbered arbitrary: s) (simp_all add: currentPrefix_line_step)

lemma ps_routes_groups: "ps_routes (leaveGroup line (enterGroup line s)) = ps_routes s"
  by (simp add: enterGroup_def leaveGroup_def)

lemma line_step_without_prefix:
  "currentPrefix s = [] \<Longrightarrow>
   ps_routes (line_step filePath (n, line) s)
   = parseRouteLine line n filePath
       (currentMiddleware (leaveGroup line (enterGroup line s))) [] (ps_routes s)"
  by (simp add: line_step_def Let_def currentPrefix_enterGroup currentPrefix_leaveGroup
      ps_routes_groups)

lemma fullUri_without_prefix: "fullUri [] uri = uri"
  by (simp add: fullUri_def truthy_def)

lemma fullUri_first_occurrence_only: "fullUri ''api/'' ''/users'' = ''api//users''"
  by code_simp

text \<open>
  C3. Inside a group that carries a URI prefix, the URI of a route should be the prefix,
  a separator and the declared URI. \<open>parseRouteGroup\<close> assigns the prefix to its own
  parameter, so \<open>parseRouteFile\<close> never sees it (\<open>currentPrefix_fold\<close>): for the group
  with prefix \<open>admin\<close> and the route \<open>Route::get('users', 'UserController@index')\<close>, the
  extracted URI is \<open>users\<close>, where \<open>parseRouteLine\<close> with the prefix would give
  \<open>admin/users\<close>. The middleware of the group does arrive.
\<close>

theorem group_prefix_not_applied:
  "file_routes (parseRouteFile admin_routes_file []) ''routes/web.php''
     = [\<lparr>rt_method = [''GET''], rt_uri = ''users'', rt_name = None,
         rt_action = Some ''UserController@index'', rt_controller = Some ''UserController'',
         rt_controllerMethod = Some ''index'', rt_middleware = Some [''auth''],
         rt_filePath = ''routes/web.php'', rt_line = 2, rt_column = 4\<rparr>]
   \<and> fullUri ''admin'' ''users'' = ''admin/users''"
  by code_simp


section \<open>Usage flags\<close>

lemma fresh_map_push:
  "fresh trs \<Longrightarrow> t_key e = k \<Longrightarrow> \<not> t_isUsed e \<Longrightarrow> fresh (map_push k e trs)"
  by (auto simp: fresh_def map_push_def list_all_iff split: option.splits)

lemma fresh_addTranslation:
  "fresh trs \<Longrightarrow> fresh (addTranslation key file locale v line trs)"
  by (simp add: addTranslation_def fresh_map_push)

lemma fresh_fold:
  "(\<And>x s. x \<in> set xs \<Longrightarrow> fresh s \<Longrightarrow> fresh (f x s)) \<Longrightarrow> fresh s \<Longrightarrow> fresh (fold f xs s)"
  by (induction xs arbitrary: s) simp_all

lemma fresh_parsePhpArray:
  "fresh trs \<Longrightarrow> fresh (parsePhpArray lns filePath loc ns pre entry trs)"
proof (induction lns filePath loc ns pre entry trs rule: parsePhpArray.induct)
  case (1 lns filePath loc ns pre key simpleValue fullMatch trs)
  then show ?case by (simp add: fresh_addTranslation)
next
  case (2 lns filePath loc ns pre key entries trs)
  show ?case
    unfolding parsePhpArray.simps
    by (rule fresh_fold) (auto intro: "2.IH" "2.prems")
qed

lemma fresh_parseJsonObject:
  "fresh trs \<Longrightarrow> fresh (parseJsonObject filePath loc pre kv trs)"
proof (induction filePath loc pre kv trs rule: parseJsonObject.induct)
  case (1 filePath loc pre key v trs)
  then show ?case by (simp add: fresh_addTranslation)
next
  case (2 filePath loc pre key kvs trs)
  show ?case
    unfolding parseJsonObject.simps
    by (rule fresh_fold) (auto intro: "2.IH" "2.prems")
next
  case (3 filePath loc pre key trs)
  then show ?case by simp
qed

lemma fresh_parseTranslationFile:
  "fresh trs \<Longrightarrow> fresh (parseTranslationFile locale tf trs)"
  by (auto simp: parseTranslationFile_def intro!: fresh_fold fresh_parsePhpArray fresh_parseJsonObject
      split: prod.splits option.splits translation_content.splits)

lemma fresh_scanLocaleDirectory:
  "fresh trs \<Longrightarrow> fresh (scanLocaleDirectory locale files trs)"
  by (auto simp: scanLocaleDirectory_def intro!: fresh_fold fresh_parseTranslationFile)

lemma fresh_scanTranslationDirectory:
  "fresh trs \<Longrightarrow> fresh (scanTranslationDirectory entries trs)"
  by (auto simp: scanTranslationDirectory_def intro!: fresh_fold fresh_scanLocaleDirectory)

lemma fresh_loadTranslations: "fresh (loadTranslations roots [])"
proof -
  have "fresh []" by (simp add: fresh_def)
  then show ?thesis
    by (auto simp: loadTranslations_def intro!: fresh_fold fresh_scanTranslationDirectory)
qed

lemma fresh_keyed: "fresh trs \<Longrightarrow> keyed trs"
  by (auto simp: fresh_def keyed_def list_all_iff)

lemma fresh_unused: "fresh trs \<Longrightarrow> t \<in> set (catalog_entries trs) \<Longrightarrow> \<not> t_isUsed t"
  by (auto simp: fresh_def catalog_entries_def list_all_iff)

lemma keyed_markTranslationAsUsed: "keyed trs \<Longrightarrow> keyed (markTranslationAsUsed key trs)"
  by (auto simp: keyed_def markTranslationAsUsed_def list_all_iff)

lemma entries_markTranslationAsUsed:
  "keyed trs \<Longrightarrow>
   catalog_entries (markTranslationAsUsed key trs)
   = map (\<lambda>t. if t_key t = key then t\<lparr>t_isUsed := True\<rparr> else t) (catalog_entries trs)"
proof (induction trs)
  case Nil
  then show ?case by (simp add: catalog_entries_def markTranslationAsUsed_def)
next
  case (Cons kv trs)
  from Cons.prems have k: "keyed trs" and h: "list_all (\<lambda>t. t_key t = fst kv) (snd kv)"
    by (simp_all add: keyed_def)
  have tl: "catalog_entries (markTranslationAsUsed key trs)
     = map (\<lambda>t. if t_key t = key then t\<lparr>t_isUsed := True\<rparr> else t) (catalog_entries trs)"
    by (rule Cons.IH [OF k])
  have hd: "snd (if fst kv = key then (fst kv, map (\<lambda>t. t\<lparr>t_isUsed := True\<rparr>) (snd kv)) else kv)
     = map (\<lambda>t. if t_key t = key then t\<lparr>t_isUsed := True\<rparr> else t) (snd kv)"
    using h by (auto simp: list_all_iff intro: map_idI [symmetric])
  have "catalog_entries (markTranslationAsUsed key (kv # trs))
       = snd (if fst kv = key then (fst kv, map (\<lambda>t. t\<lparr>t_isUsed := True\<rparr>) (snd kv)) else kv)
         @ catalog_entries (markTranslationAsUsed key trs)"
    by (simp add: catalog_entries_def markTranslationAsUsed_def)
  then show ?case
    unfolding hd tl by (simp add: catalog_entries_def)
qed

lemma scanned_usage_step: "scanned st \<Longrightarrow> scanned (usage_step filePath content method m st)"
  by (auto simp: scanned_def usage_step_def keyed_markTranslationAsUsed
      entries_markTranslationAsUsed list_all_iff)

lemma scanned_fold:
  "(\<And>x s. x \<in> set xs \<Longrightarrow> scanned s \<Longrightarrow> scanned (f x s)) \<Longrightarrow> scanned s \<Longrightarrow> scanned (fold f xs s)"
  by (induction xs arbitrary: s) simp_all

lemma scanned_scanFileForUsages: "scanned st \<Longrightarrow> scanned (scanFileForUsages sf st)"
  by (auto simp: scanFileForUsages_def intro!: scanned_fold scanned_usage_step split: option.splits)

lemma scanned_scanForUsages: "scanned st \<Longrightarrow> scanned (scanForUsages sources st)"
  by (auto simp: scanForUsages_def intro!: scanned_fold scanned_scanFileForUsages)

lemma scanned_reloadTranslations: "scanned (reloadTranslations roots sources st)"
proof -
  have "scanned (st\<lparr>tr_translations := loadTranslations roots [], tr_usages := []\<rparr>)"
    using fresh_loadTranslations [of roots]
    by (auto simp: scanned_def fresh_keyed list_all_iff dest: fresh_unused)
  then show ?thesis
    unfolding reloadTranslations_def by (rule scanned_scanForUsages)
qed

lemma getUnusedTranslations_filter:
  "getUnusedTranslations st = filter (\<lambda>t. \<not> t_isUsed t) (catalog_entries (tr_translations st))"
  by (simp add: getUnusedTranslations_def catalog_entries_def filter_concat comp_def)

text \<open>
  C6. After a full scan (\<open>reloadTranslations\<close>: the catalog is loaded, then every source
  file is scanned), every catalog entry whose key is the key of a usage has its
  \<open>isUsed\<close> flag set, whatever its locale; \<open>getUnusedTranslations\<close> returns exactly the
  catalog entries whose flag is still false, and these are the entries whose key no
  usage has.
\<close>

theorem usage_marks_every_locale:
  "(\<forall>u \<in> set (tr_usages (reloadTranslations roots sources st)).
      \<forall>t \<in> set (catalog_entries (tr_translations (reloadTranslations roots sources st))).
        t_key t = u_key u \<longrightarrow> t_isUsed t)
   \<and> getUnusedTranslations (reloadTranslations roots sources st)
       = filter (\<lambda>t. \<not> t_isUsed t)
           (catalog_entries (tr_translations (reloadTranslations roots sources st)))
   \<and> getUnusedTranslations (reloadTranslations roots sources st)
       = filter (\<lambda>t. t_key t \<notin> u_key ` set (tr_usages (reloadTranslations roots sources st)))
           (catalog_entries (tr_translations (reloadTranslations roots sources st)))"
proof -
  let ?st = "reloadTranslations roots sources st"
  have s: "list_all (\<lambda>t. t_isUsed t = (t_key t \<in> u_key ` set (tr_usages ?st)))
          (catalog_entries (tr_translations ?st))"
    using scanned_reloadTranslations [of roots sources st] by (simp add: scanned_def)
  have 1: "\<forall>u \<in> set (tr_usages ?st). \<forall>t \<in> set (catalog_entries (tr_translations ?st)).
        t_key t = u_key u \<longrightarrow> t_isUsed t"
    using s by (auto simp: list_all_iff)
  have 3: "filter (\<lambda>t. \<not> t_isUsed t) (catalog_entries (tr_translations ?st))
       = filter (\<lambda>t. t_key t \<notin> u_key ` set (tr_usages ?st)) (catalog_entries (tr_translations ?st))"
    using s by (intro filter_cong) (auto simp: list_all_iff)
  show ?thesis using 1 3 by (simp add: getUnusedTranslations_filter)
qed

theorem usage_marks_every_locale_witness:
  "(\<exists>u en fr.
      u \<in> set (tr_usages (reloadTranslations welcome_roots welcome_sources empty_translations))
      \<and> en \<in> set (catalog_entries (tr_translations
                  (reloadTranslations welcome_roots welcome_sources empty_translations)))
      \<and> fr \<in> set (catalog_entries (tr_translations
                  (reloadTranslations welcome_roots welcome_sources empty_translations)))
      \<and> t_key en = u_key u \<and> t_key fr = u_key u
      \<and> t_locale en = ''en'' \<and> t_locale fr = ''fr''
      \<and> t_isUsed en \<and> t_isUsed fr)
   \<and> map (\<lambda>t. (t_key t, t_locale t))
         (getUnusedTranslations (reloadTranslations welcome_roots welcome_sources empty_translations))
       = [(''messages.bye'', ''fr'')]"
proof -
  let ?st = "reloadTranslations welcome_roots welcome_sources empty_translations"
  have us: "map u_key (tr_usages ?st) = [''messages.welcome'', ''messages.welcome'']"
    by code_simp
  have keys: "map (\<lambda>t. (t_key t, t_locale t)) (catalog_entries (tr_translations ?st))
      = [(''messages.welcome'', ''en''), (''messages.welcome'', ''fr''), (''messages.bye'', ''fr'')]"
    by code_simp
  from us obtain u u' where usl: "tr_usages ?st = [u, u']"
    and u: "u_key u = ''messages.welcome''" and u': "u_key u' = ''messages.welcome''"
    by (auto simp: map_eq_Cons_conv)
  from keys obtain en fr bye where es: "catalog_entries (tr_translations ?st) = [en, fr, bye]"
    and en: "t_key en = ''messages.welcome''" "t_locale en = ''en''"
    and fr: "t_key fr = ''messages.welcome''" "t_locale fr = ''fr''"
    and bye: "t_key bye = ''messages.bye''" "t_locale bye = ''fr''"
    by (auto simp: map_eq_Cons_conv)
  note main = usage_marks_every_locale [of welcome_roots welcome_sources empty_translations]
  from main have marks: "\<forall>u \<in> set (tr_usages ?st).
      \<forall>t \<in> set (catalog_entries (tr_translations ?st)). t_key t = u_key u \<longrightarrow> t_isUsed t"
    by blast
  from main have unused: "getUnusedTranslations ?st
       = filter (\<lambda>t. t_key t \<notin> u_key ` set (tr_usages ?st)) (catalog_entries (tr_translations ?st))"
    by blast
  have uen: "t_isUsed en" and ufr: "t_isUsed fr"
    using marks en fr u by (simp_all add: usl es)
  have "getUnusedTranslations ?st = [bye]"
    by (simp add: unused usl u u' es en fr bye)
  then have 2: "map (\<lambda>t. (t_key t, t_locale t)) (getUnusedTranslations ?st) = [(''messages.bye'', ''fr'')]"
    by (simp add: bye)
  have "u \<in> set (tr_usages ?st)" by (simp add: usl)
  moreover have "en \<in> set (catalog_entries (tr_translations ?st))"
    "fr \<in> set (catalog_entries (tr_translations ?st))"
    by (simp_all add: es)
  ultimately have 1: "\<exists>u en fr.
      u \<in> set (tr_usages ?st)
      \<and> en \<in> set (catalog_entries (tr_translations ?st))
      \<and> fr \<in> set (catalog_entries (tr_translations ?st))
      \<and> t_key en = u_key u \<and> t_key fr = u_key u
      \<and> t_locale en = ''en'' \<and> t_locale fr = ''fr''
      \<and> t_isUsed en \<and> t_isUsed fr"
    using en fr u uen ufr by (intro exI [of _ u] exI [of _ en] exI [of _ fr]) simp
  from 1 2 show ?thesis by (rule conjI)
qed


section \<open>Re-extraction\<close>

lemma parseAllRoutes_idem: "parseAllRoutes dir (parseAllRoutes dir st) = parseAllRoutes dir st"
  by (cases dir; cases st) (simp_all add: parseAllRoutes_def Let_def)

lemma parseAllRoutes_start: "parseAllRoutes dir st = parseAllRoutes dir st'"
  by (cases dir; cases st; cases st') (simp_all add: parseAllRoutes_def Let_def)

lemma reloadTranslations_start:
  "reloadTranslations roots sources st = reloadTranslations roots sources st'"
  by (cases st; cases st') (simp add: reloadTranslations_def)

lemma reloadTranslations_idem:
  "reloadTranslations roots sources (reloadTranslations roots sources st) = reloadTranslations roots sources st"
  by (rule reloadTranslations_start)

text \<open>
  C8. A full extraction clears the store of its domain and rebuilds it from the files:
  run again on the same files, from the state the first run left, it leaves the same
  state. This holds for the routes (with the controller index), for the translation
  catalog with its usages, and for the migration columns.
\<close>

theorem reextraction_idempotent:
  "parseAllRoutes dir (parseAllRoutes dir rst) = parseAllRoutes dir rst
   \<and> reloadTranslations roots sources (reloadTranslations roots sources tst)
       = reloadTranslations roots sources tst
   \<and> analyzeMigrations mdir (analyzeMigrations mdir sst) = analyzeMigrations mdir sst"
proof -
  have "analyzeMigrations mdir (analyzeMigrations mdir sst) = analyzeMigrations mdir sst"
    by (cases mdir; cases sst) (simp_all add: analyzeMigrations_def)
  then show ?thesis
    by (simp add: parseAllRoutes_idem reloadTranslations_idem)
qed


section \<open>Validation rules\<close>

lemma existing_conflict_declared:
  "a \<in> set currentRules \<Longrightarrow> declares_conflict a b \<Longrightarrow> existing_conflict b currentRules \<noteq> Inr True"
proof (induction currentRules)
  case Nil
  then show ?case by simp
next
  case (Cons r rs)
  show ?case
  proof (cases "conflicts_of r")
    case (Inl e)
    then show ?thesis by simp
  next
    case (Inr cs)
    show ?thesis
    proof (cases "b \<in> set cs")
      case True
      with Inr show ?thesis by simp
    next
      case False
      have "a \<noteq> r"
      proof
        assume "a = r"
        with Cons.prems(2) Inr have "b \<in> set cs"
          by (auto simp: declares_conflict_def conflicts_of_def split: option.splits)
        with False show False by simp
      qed
      with Cons.prems have "a \<in> set rs" by simp
      then have "existing_conflict b rs \<noteq> Inr True"
        using Cons.prems(2) by (rule Cons.IH)
      with Inr False show ?thesis by simp
    qed
  qed
qed

lemma not_applicable_declared_by_applied:
  assumes "a \<in> set currentRules" and "declares_conflict a b" and "v_name rule = b"
  shows "isRuleApplicable rule currentRules fieldName \<noteq> Inr True"
  using existing_conflict_declared [OF assms(1,2)] assms(3)
  by (auto simp: isRuleApplicable_def split: sum.splits)

lemma not_applicable_declared_by_candidate:
  assumes "a \<in> set currentRules" and "declares_conflict b a" and "v_name rule = b"
  shows "isRuleApplicable rule currentRules fieldName \<noteq> Inr True"
  using assms
  by (auto simp: isRuleApplicable_def declares_conflict_def conflicts_of_def list_ex_iff
      split: sum.splits option.splits if_splits)

lemma not_applicable:
  assumes "declares_conflict a b \<or> declares_conflict b a"
    and "a \<in> set currentRules" and "v_name rule = b"
  shows "isRuleApplicable rule currentRules fieldName \<noteq> Inr True"
  using assms not_applicable_declared_by_applied not_applicable_declared_by_candidate by blast

lemma filter_applicable_sound:
  "filter_applicable rules currentRules fieldName = Inr available \<Longrightarrow> rule \<in> set available
   \<Longrightarrow> isRuleApplicable rule currentRules fieldName = Inr True"
proof (induction rules arbitrary: available)
  case Nil
  then show ?case by simp
next
  case (Cons r rs)
  then show ?case
    by (auto split: if_splits sum.splits)
qed

text \<open>
  C4. Compatibility filtering is symmetric. When the mutual-exclusion table lists \<open>b\<close>
  among the conflicts of \<open>a\<close>, or \<open>a\<close> among those of \<open>b\<close>, then with \<open>a\<close> applied
  \<open>isRuleApplicable\<close> does not return true for a rule named \<open>b\<close> (it returns false, or the
  lookup of an inherited member throws) and \<open>b\<close> is not among the rules offered; and the
  same with \<open>a\<close> and \<open>b\<close> exchanged. The witness is the pair \<open>required\<close>, \<open>nullable\<close>.
\<close>

theorem compatibility_symmetric:
  assumes "declares_conflict a b \<or> declares_conflict b a"
  shows "(a \<in> set currentRules \<longrightarrow>
            (\<forall>rule. v_name rule = b \<longrightarrow> isRuleApplicable rule currentRules fieldName \<noteq> Inr True)
            \<and> (\<forall>available. availableRules currentRules fieldName = Inr available
                  \<longrightarrow> b \<notin> v_name ` set available))
       \<and> (b \<in> set currentRules \<longrightarrow>
            (\<forall>rule. v_name rule = a \<longrightarrow> isRuleApplicable rule currentRules fieldName \<noteq> Inr True)
            \<and> (\<forall>available. availableRules currentRules fieldName = Inr available
                  \<longrightarrow> a \<notin> v_name ` set available))"
proof -
  have one: "(\<forall>rule. v_name rule = y \<longrightarrow> isRuleApplicable rule currentRules fieldName \<noteq> Inr True)
            \<and> (\<forall>available. availableRules currentRules fieldName = Inr available
                  \<longrightarrow> y \<notin> v_name ` set available)"
    if c: "declares_conflict x y \<or> declares_conflict y x" and x: "x \<in> set currentRules" for x y
  proof (intro conjI allI impI)
    fix rule :: ValidationRule assume "v_name rule = y"
    with c x show "isRuleApplicable rule currentRules fieldName \<noteq> Inr True"
      by (rule not_applicable)
  next
    fix available assume av: "availableRules currentRules fieldName = Inr available"
    show "y \<notin> v_name ` set available"
    proof
      assume "y \<in> v_name ` set available"
      then obtain rule :: ValidationRule where r: "rule \<in> set available" "v_name rule = y" by auto
      from av r(1) have "isRuleApplicable rule currentRules fieldName = Inr True"
        unfolding availableRules_def by (rule filter_applicable_sound)
      with not_applicable [OF c x r(2)] show False by simp
    qed
  qed
  from assms have sym: "declares_conflict b a \<or> declares_conflict a b" by blast
  show ?thesis using one [OF assms] one [OF sym] by blast
qed

theorem compatibility_symmetric_witness:
  "(declares_conflict ''required'' ''nullable'' \<or> declares_conflict ''nullable'' ''required'')
   \<and> ''required'' \<in> set [''required'', ''string'']
   \<and> ''nullable'' \<in> set [''nullable'']
   \<and> (\<exists>available. availableRules [''required'', ''string''] ''email'' = Inr available
          \<and> ''nullable'' \<notin> v_name ` set available)
   \<and> (\<exists>available. availableRules [''nullable''] ''email'' = Inr available
          \<and> ''required'' \<notin> v_name ` set available)"
proof -
  have d: "declares_conflict ''required'' ''nullable'' \<or> declares_conflict ''nullable'' ''required''"
    by code_simp
  have "\<not> isl (availableRules [''required'', ''string''] ''email'')"
    by code_simp
  then obtain av1 where av1: "availableRules [''required'', ''string''] ''email'' = Inr av1"
    by (cases "availableRules [''required'', ''string''] ''email''") auto
  have "\<not> isl (availableRules [''nullable''] ''email'')"
    by code_simp
  then obtain av2 where av2: "availableRules [''nullable''] ''email'' = Inr av2"
    by (cases "availableRules [''nullable''] ''email''") auto
  have 1: "''nullable'' \<notin> v_name ` set av1"
    using compatibility_symmetric [OF d, of "[''required'', ''string'']" "''email''"] av1 by simp
  have 2: "''required'' \<notin> v_name ` set av2"
    using compatibility_symmetric [OF d, of "[''nullable'']" "''email''"] av2 by simp
  from d av1 av2 1 2 show ?thesis by simp
qed

lemma keys_parseMigrationForSchema:
  "fst ` set (parseMigrationForSchema sf tables) = fst ` set tables \<union> set (created_table sf)"
  by (auto simp: parseMigrationForSchema_def created_table_def keys_object_set split: option.splits)

lemma keys_fold_parseMigrationForSchema:
  "fst ` set (fold parseMigrationForSchema fs tables)
   = fst ` set tables \<union> set (concat (map created_table fs))"
  by (induction fs arbitrary: tables) (auto simp: keys_parseMigrationForSchema)

lemma keys_analyzeDatabaseSchema:
  "fst ` set (analyzeDatabaseSchema dir tables) = set (migration_tables dir)"
proof (cases dir)
  case None
  then show ?thesis by (simp add: analyzeDatabaseSchema_def migration_tables_def)
next
  case (Some fs)
  have "migration_tables dir = concat (map created_table (filter (\<lambda>sf. endsWith (fst sf) ''.php'') fs))"
    using Some by (simp add: migration_tables_def created_table_def [abs_def])
  then show ?thesis
    using Some by (simp add: analyzeDatabaseSchema_def keys_fold_parseMigrationForSchema)
qed

lemma getValidationRule_exists:
  "getValidationRule ''exists''
   = Some (param_rule ''exists'' table_parameters [''exists:users'', ''exists:users,id''] ''Database'')"
  by code_simp

lemma getValidationRule_unique:
  "getValidationRule ''unique''
   = Some (param_rule ''unique'' table_parameters [''unique:users'', ''unique:users,email''] ''Database'')"
  by code_simp

lemma validateRule_table_not_found:
  assumes "ruleName = ''exists'' \<or> ruleName = ''unique''"
    and "split_on CHR '':'' rule = ruleName # p # ps"
    and "first_piece CHR '','' p = tableName"
    and "tableName \<notin> fst ` set tables"
  shows "table_not_found_issue tableName \<in> set (validateRule tables rule)"
proof -
  from assms(4) have none: "map_of tables tableName = None"
    by (simp add: map_of_eq_None_iff)
  from assms(1) show ?thesis
  proof
    assume "ruleName = ''exists''"
    then show ?thesis
      using assms(2,3) none
      by (simp add: validateRule_def getValidationRule_exists Let_def)
  next
    assume "ruleName = ''unique''"
    then show ?thesis
      using assms(2,3) none
      by (simp add: validateRule_def getValidationRule_unique Let_def)
  qed
qed

text \<open>
  C7. For a rule \<open>exists:...\<close> or \<open>unique:...\<close> whose table argument is not a table that the
  migrations create, \<open>validateRule\<close> returns (it has no throwing path) a list of issues
  that holds the warning \<open>table-not-found\<close> for that table; and every quick fix of
  \<open>createTableNotFoundActions\<close> names a table that the migrations create. The witness is
  \<open>exists:accounts,id\<close> with migrations that create \<open>users\<close> and \<open>posts\<close>.
\<close>

theorem unknown_table_flagged:
  assumes "ruleName = ''exists'' \<or> ruleName = ''unique''"
    and "split_on CHR '':'' rule = ruleName # p # ps"
    and "first_piece CHR '','' p = tableName"
    and "tableName \<notin> set (migration_tables dir)"
  shows "table_not_found_issue tableName \<in> set (validateRule (analyzeDatabaseSchema dir tables) rule)
       \<and> (\<forall>action \<in> set (createTableNotFoundActions (analyzeDatabaseSchema dir tables) currentText).
            \<exists>t \<in> set (migration_tables dir).
              a_title action = ''Use table '' @ sq @ t @ sq
              \<and> a_newText action = replace_exists [] currentText (''exists:'' @ t))"
proof -
  let ?tables = "analyzeDatabaseSchema dir tables"
  have keys: "fst ` set ?tables = set (migration_tables dir)"
    by (rule keys_analyzeDatabaseSchema)
  have 1: "table_not_found_issue tableName \<in> set (validateRule ?tables rule)"
    using assms(1,2,3) by (rule validateRule_table_not_found) (simp add: keys assms(4))
  have "set (take 5 (map fst ?tables)) \<subseteq> set (migration_tables dir)"
    using set_take_subset [of 5 "map fst ?tables"] keys by auto
  then have 2: "\<forall>action \<in> set (createTableNotFoundActions ?tables currentText).
            \<exists>t \<in> set (migration_tables dir).
              a_title action = ''Use table '' @ sq @ t @ sq
              \<and> a_newText action = replace_exists [] currentText (''exists:'' @ t)"
    by (auto simp: createTableNotFoundActions_def)
  from 1 2 show ?thesis by (rule conjI)
qed

theorem unknown_table_flagged_witness:
  "(''exists'' = ''exists'' \<or> ''exists'' = ''unique'')
   \<and> split_on CHR '':'' ''exists:accounts,id'' = [''exists'', ''accounts,id'']
   \<and> first_piece CHR '','' ''accounts,id'' = ''accounts''
   \<and> ''accounts'' \<notin> set (migration_tables users_posts_migrations)
   \<and> set (migration_tables users_posts_migrations) = {''users'', ''posts''}
   \<and> table_not_found_issue ''accounts''
        \<in> set (validateRule (analyzeDatabaseSchema users_posts_migrations []) ''exists:accounts,id'')
   \<and> list_all (\<lambda>action. a_title action = ''Use table '' @ sq @ ''users'' @ sq
                        \<or> a_title action = ''Use table '' @ sq @ ''posts'' @ sq)
        (createTableNotFoundActions (analyzeDatabaseSchema users_posts_migrations [])
           ''exists:accounts,id'')"
proof -
  have a: "''exists'' = ''exists'' \<or> ''exists'' = ''unique''" by simp
  have b: "split_on CHR '':'' ''exists:accounts,id'' = [''exists'', ''accounts,id'']" by code_simp
  have c: "first_piece CHR '','' ''accounts,id'' = ''accounts''" by code_simp
  have ts: "migration_tables users_posts_migrations = [''users'', ''posts'']" by code_simp
  have d: "''accounts'' \<notin> set (migration_tables users_posts_migrations)" by (simp add: ts)
  from unknown_table_flagged [OF a b c d, of "[]" "''exists:accounts,id''"]
  have 1: "table_not_found_issue ''accounts''
        \<in> set (validateRule (analyzeDatabaseSchema users_posts_migrations []) ''exists:accounts,id'')"
    and 2: "\<forall>action \<in> set (createTableNotFoundActions (analyzeDatabaseSchema users_posts_migrations [])
               ''exists:accounts,id'').
            \<exists>t \<in> set (migration_tables users_posts_migrations).
              a_title action = ''Use table '' @ sq @ t @ sq
              \<and> a_newText action = replace_exists [] ''exists:accounts,id'' (''exists:'' @ t)"
    by blast+
  from 2 have 3: "list_all (\<lambda>action. a_title action = ''Use table '' @ sq @ ''users'' @ sq
                        \<or> a_title action = ''Use table '' @ sq @ ''posts'' @ sq)
        (createTableNotFoundActions (analyzeDatabaseSchema users_posts_migrations [])
           ''exists:accounts,id'')"
    unfolding list_all_iff ts by fastforce
  from a b c d ts 1 3 show ?thesis by auto
qed

lemma quick_fix_texts:
  "map a_newText (createTableNotFoundActions (analyzeDatabaseSchema users_posts_migrations [])
       ''exists:accounts,id'') = [''exists:users,id'', ''exists:posts,id'']
   \<and> map a_newText (createTableNotFoundActions (analyzeDatabaseSchema users_posts_migrations [])
       ''unique:accounts,email'') = [''unique:accounts,email'', ''unique:accounts,email'']"
  by code_simp

end
